theory Spec2Isabelle
  imports Complex_Main "HOL-Library.Word" "HOL-Library.Sublist"
begin

section \<open>JavaScript values used by the model\<close>

text \<open>
  A JavaScript string is a sequence of UTF-16 code units; \<open>length\<close>, \<open>slice\<close>,
  \<open>replace\<close> and the regular expressions of the source all work on code units. A code
  unit is modelled by its number, and \<open>str\<close> turns an (ASCII) literal into code units.
\<close>

type_synonym jsstring = "nat list"

definition str :: "string \<Rightarrow> jsstring" where
  "str s = map of_char s"

text \<open>
  \<open>Array.prototype.slice(start)\<close> with one argument: a negative start counts from the
  end and is clamped at 0, a non-negative one is clamped at the length. \<open>-0\<close> is \<open>0\<close>.
\<close>

definition slice_from :: "int \<Rightarrow> 'a list \<Rightarrow> 'a list" where
  "slice_from start xs =
     (let len = int (length xs);
          k = (if start < 0 then max (len + start) 0 else min start len)
      in drop (nat k) xs)"

section \<open>ConversationManager (src/core/lead-extractor.ts, second document)\<close>

datatype role = RoleSystem | RoleUser | RoleAssistant | RoleFunction

datatype jsval = JUndefined | JString jsstring | JNumber rat

text \<open>\<open>Record<string, unknown>\<close>: the own properties of an object, by key.\<close>

type_synonym jsrecord = "string \<rightharpoonup> jsval"

record message =
  role :: role
  content :: jsstring
  timestamp :: "nat option"
  msg_metadata :: "jsrecord option"

record segment =
  seg_id :: jsstring
  seg_text :: jsstring
  seg_isFinal :: bool
  seg_timestamp :: nat
  seg_speaker :: "jsstring option"
  seg_confidence :: "rat option"

record conversation_state =
  conv_id :: jsstring
  messages :: "message list"
  isActive :: bool
  startedAt :: nat
  lastActivityAt :: nat
  metadata :: jsrecord

record manager_config =
  maxMessages :: nat
  maxConversationDuration :: nat
  silenceTimeoutMs :: nat
  enableMetadata :: bool

text \<open>The events the manager emits and the lines it logs, one constructor per call site.\<close>

datatype conv_event =
    EvStarted jsstring
  | EvEnded jsstring
  | EvMessage message
  | EvTranscript segment
  | EvCleared

datatype conv_log =
    InfoStarted jsstring
  | InfoEnded jsstring
  | WarnInactive
  | DebugAdded role jsstring
  | InfoCleared

text \<open>
  The manager object: the conversation state, whether the single-shot silence timer is
  armed, and the events emitted and lines logged so far (oldest first).
\<close>

record manager =
  state :: conversation_state
  silenceTimer :: bool
  emitted :: "conv_event list"
  logged :: "conv_log list"

text \<open>\<open>Date.now()\<close> and the generated identifier are inputs of the model.\<close>

definition createNewConversation :: "jsstring \<Rightarrow> nat \<Rightarrow> conversation_state" where
  "createNewConversation newId now =
     \<lparr>conv_id = newId, messages = [], isActive = True, startedAt = now,
      lastActivityAt = now, metadata = Map.empty\<rparr>"

definition new_manager :: "jsstring \<Rightarrow> nat \<Rightarrow> manager" where
  "new_manager newId now =
     \<lparr>state = createNewConversation newId now, silenceTimer = False, emitted = [], logged = []\<rparr>"

definition resetSilenceTimer :: "manager_config \<Rightarrow> manager \<Rightarrow> manager" where
  "resetSilenceTimer cfg m = m\<lparr>silenceTimer := (0 < silenceTimeoutMs cfg)\<rparr>"

definition clearSilenceTimer :: "manager \<Rightarrow> manager" where
  "clearSilenceTimer m = m\<lparr>silenceTimer := False\<rparr>"

definition start :: "manager_config \<Rightarrow> jsstring \<Rightarrow> nat \<Rightarrow> manager \<Rightarrow> manager" where
  "start cfg newId now m =
     resetSilenceTimer cfg
       (m\<lparr>state := createNewConversation newId now,
          logged := logged m @ [InfoStarted newId],
          emitted := emitted m @ [EvStarted newId]\<rparr>)"

definition end_conversation :: "manager \<Rightarrow> manager" where
  "end_conversation m =
     (let m1 = clearSilenceTimer (m\<lparr>state := (state m)\<lparr>isActive := False\<rparr>\<rparr>)
      in m1\<lparr>logged := logged m1 @ [InfoEnded (conv_id (state m1))],
             emitted := emitted m1 @ [EvEnded (conv_id (state m1))]\<rparr>)"

text \<open>
  \<open>addMessage(role, content, metadata?)\<close>. \<open>t1\<close> and \<open>t2\<close> are the two readings of
  \<open>Date.now()\<close> (message timestamp, last activity).
\<close>

definition addMessage ::
  "manager_config \<Rightarrow> role \<Rightarrow> jsstring \<Rightarrow> jsrecord option \<Rightarrow> nat \<Rightarrow> nat \<Rightarrow> manager \<Rightarrow> manager" where
  "addMessage cfg r c md t1 t2 m =
     (if \<not> isActive (state m) then m\<lparr>logged := logged m @ [WarnInactive]\<rparr>
      else
        let msg = \<lparr>role = r, content = c, timestamp = Some t1,
                   msg_metadata = (if enableMetadata cfg then md else None)\<rparr>;
            pushed = messages (state m) @ [msg];
            trimmed = (if maxMessages cfg < length pushed
                       then slice_from (- int (maxMessages cfg)) pushed else pushed);
            m1 = m\<lparr>state := (state m)\<lparr>messages := trimmed, lastActivityAt := t2\<rparr>,
                   emitted := emitted m @ [EvMessage msg]\<rparr>;
            m2 = resetSilenceTimer cfg m1
        in m2\<lparr>logged := logged m2 @ [DebugAdded r (take 50 c)]\<rparr>)"

definition transcript_metadata :: "segment \<Rightarrow> jsrecord" where
  "transcript_metadata seg =
     [''transcriptId'' \<mapsto> JString (seg_id seg),
      ''confidence'' \<mapsto> (case seg_confidence seg of None \<Rightarrow> JUndefined | Some q \<Rightarrow> JNumber q),
      ''speaker'' \<mapsto> (case seg_speaker seg of None \<Rightarrow> JUndefined | Some s \<Rightarrow> JString s)]"

definition addTranscript ::
  "manager_config \<Rightarrow> segment \<Rightarrow> nat \<Rightarrow> nat \<Rightarrow> manager \<Rightarrow> manager" where
  "addTranscript cfg seg t1 t2 m =
     (if \<not> isActive (state m) then m
      else
        let m1 = (if seg_isFinal seg
                  then addMessage cfg RoleUser (seg_text seg) (Some (transcript_metadata seg)) t1 t2 m
                  else m)
        in m1\<lparr>emitted := emitted m1 @ [EvTranscript seg]\<rparr>)"

text \<open>
  The getters, on values. What their results share with the manager is the subject of
  the store model further down.
\<close>

definition getState :: "manager \<Rightarrow> conversation_state" where
  "getState m = state m"

definition getMessages :: "manager \<Rightarrow> message list" where
  "getMessages m = messages (state m)"

definition getLastMessages :: "int \<Rightarrow> manager \<Rightarrow> message list" where
  "getLastMessages count m = slice_from (- count) (messages (state m))"

definition clear :: "manager \<Rightarrow> manager" where
  "clear m = m\<lparr>state := (state m)\<lparr>messages := [], metadata := Map.empty\<rparr>,
               logged := logged m @ [InfoCleared],
               emitted := emitted m @ [EvCleared]\<rparr>"

text \<open>A run of \<open>addMessage\<close> calls, each with its arguments and clock readings.\<close>

type_synonym add_call = "role \<times> jsstring \<times> jsrecord option \<times> nat \<times> nat"

fun addMessages :: "manager_config \<Rightarrow> add_call list \<Rightarrow> manager \<Rightarrow> manager" where
  "addMessages cfg [] m = m"
| "addMessages cfg ((r, c, md, t1, t2) # calls) m =
     addMessages cfg calls (addMessage cfg r c md t1 t2 m)"

text \<open>The message object an \<open>addMessage\<close> call builds.\<close>

fun built :: "manager_config \<Rightarrow> add_call \<Rightarrow> message" where
  "built cfg (r, c, md, t1, t2) =
     \<lparr>role = r, content = c, timestamp = Some t1,
      msg_metadata = (if enableMetadata cfg then md else None)\<rparr>"

section \<open>AudioPipeline (src/core/audio-pipeline.ts)\<close>

type_synonym byte = "8 word"
type_synonym bytes = "byte list"

datatype js_error = RangeError

text \<open>
  \<open>TypedArray.prototype.set(source, offset)\<close>: writes the source at the offset and throws
  a RangeError when it does not fit.
\<close>

definition typed_set :: "bytes \<Rightarrow> bytes \<Rightarrow> nat \<Rightarrow> js_error + bytes" where
  "typed_set target source offset =
     (if length target < offset + length source then Inl RangeError
      else Inr (take offset target @ source @ drop (offset + length source) target))"

text \<open>
  The configuration. \<open>calculateBufferDuration() >= bufferDurationMs\<close> is double
  arithmetic on \<open>sampleCount\<close>, \<open>sampleRate\<close> and \<open>bufferDurationMs\<close>; the only input
  that changes is \<open>sampleCount\<close>, so the comparison is the field \<open>flushDue\<close>, a function
  of the byte count.
\<close>

record pipeline_config =
  flushDue :: "nat \<Rightarrow> bool"

datatype audio_event = EvAudioStarted | EvAudioStopped | EvChunk bytes | EvBuffer bytes

datatype audio_log = InfoPipelineStarted | InfoPipelineStopped

record pipeline =
  audioBuffer :: "bytes list"
  isStreaming :: bool
  sampleCount :: nat
  p_emitted :: "audio_event list"
  p_logged :: "audio_log list"

definition new_pipeline :: pipeline where
  "new_pipeline =
     \<lparr>audioBuffer = [], isStreaming = False, sampleCount = 0, p_emitted = [], p_logged = []\<rparr>"

text \<open>The copy loop of \<open>flushBuffer\<close>: each chunk is written at the running offset.\<close>

fun copy_chunks :: "bytes list \<Rightarrow> bytes \<Rightarrow> nat \<Rightarrow> js_error + bytes" where
  "copy_chunks [] combined offset = Inr combined"
| "copy_chunks (chunk # rest) combined offset =
     (case typed_set combined chunk offset of
        Inl e \<Rightarrow> Inl e
      | Inr combined' \<Rightarrow> copy_chunks rest combined' (offset + length chunk))"

definition flushBuffer :: "pipeline \<Rightarrow> js_error + (bytes option \<times> pipeline)" where
  "flushBuffer p =
     (if length (audioBuffer p) = 0 then Inr (None, p)
      else
        let totalLength = foldl (\<lambda>sum chunk. sum + length chunk) 0 (audioBuffer p)
        in case copy_chunks (audioBuffer p) (replicate totalLength 0) 0 of
             Inl e \<Rightarrow> Inl e
           | Inr combined \<Rightarrow>
               Inr (Some combined,
                    p\<lparr>audioBuffer := [], sampleCount := 0,
                      p_emitted := p_emitted p @ [EvBuffer combined]\<rparr>))"

definition processAudioChunk :: "pipeline_config \<Rightarrow> bytes \<Rightarrow> pipeline \<Rightarrow> js_error + pipeline" where
  "processAudioChunk cfg chunk p =
     (if \<not> isStreaming p then Inr p
      else
        let p1 = p\<lparr>audioBuffer := audioBuffer p @ [chunk],
                   sampleCount := sampleCount p + length chunk,
                   p_emitted := p_emitted p @ [EvChunk chunk]\<rparr>
        in if flushDue cfg (sampleCount p1)
           then (case flushBuffer p1 of Inl e \<Rightarrow> Inl e | Inr (_, p2) \<Rightarrow> Inr p2)
           else Inr p1)"

definition start_pipeline :: "pipeline \<Rightarrow> pipeline" where
  "start_pipeline p =
     p\<lparr>isStreaming := True, audioBuffer := [], sampleCount := 0,
       p_logged := p_logged p @ [InfoPipelineStarted],
       p_emitted := p_emitted p @ [EvAudioStarted]\<rparr>"

definition stop_pipeline :: "pipeline \<Rightarrow> js_error + pipeline" where
  "stop_pipeline p =
     (let p1 = p\<lparr>isStreaming := False\<rparr>
      in case (if 0 < length (audioBuffer p1) then flushBuffer p1 else Inr (None, p1)) of
           Inl e \<Rightarrow> Inl e
         | Inr (_, p2) \<Rightarrow>
             Inr (p2\<lparr>p_logged := p_logged p2 @ [InfoPipelineStopped],
                     p_emitted := p_emitted p2 @ [EvAudioStopped]\<rparr>))"

text \<open>A run of \<open>processAudioChunk\<close> calls; a thrown error ends the run.\<close>

fun processAudioChunks :: "pipeline_config \<Rightarrow> bytes list \<Rightarrow> pipeline \<Rightarrow> js_error + pipeline" where
  "processAudioChunks cfg [] p = Inr p"
| "processAudioChunks cfg (chunk # rest) p =
     (case processAudioChunk cfg chunk p of
        Inl e \<Rightarrow> Inl e
      | Inr p' \<Rightarrow> processAudioChunks cfg rest p')"

text \<open>
  The byte counts after each chunk of a run that starts at count \<open>n\<close> with no flush in
  between: the values \<open>flushDue\<close> is asked about.
\<close>

fun running_counts :: "nat \<Rightarrow> bytes list \<Rightarrow> nat list" where
  "running_counts n [] = []"
| "running_counts n (chunk # rest) = (n + length chunk) # running_counts (n + length chunk) rest"

section \<open>Regular expressions of the lead extractor\<close>

text \<open>
  The patterns of the source use character classes, sequences, alternatives, optional
  parts, and repetitions of a single class only, with the assertions \<open>\b\<close> and \<open>^\<close>.
  \<open>Rep P lo hi\<close> is the greedy \<open>[P]{lo,hi}\<close> (\<open>hi = None\<close>: no upper bound).
\<close>

datatype regex =
    Cls "nat \<Rightarrow> bool"
  | Seq regex regex
  | Alt regex regex
  | Opt regex
  | Rep "nat \<Rightarrow> bool" nat "nat option"
  | WordBoundary
  | LineStart
  | Eps

text \<open>
  A position in the subject: the code units already passed (nearest first) and those
  still ahead.
\<close>

type_synonym position = "jsstring \<times> jsstring"

definition is_digit :: "nat \<Rightarrow> bool" where
  "is_digit c = (48 \<le> c \<and> c \<le> 57)"

definition is_upper :: "nat \<Rightarrow> bool" where
  "is_upper c = (65 \<le> c \<and> c \<le> 90)"

definition is_lower :: "nat \<Rightarrow> bool" where
  "is_lower c = (97 \<le> c \<and> c \<le> 122)"

definition is_letter :: "nat \<Rightarrow> bool" where
  "is_letter c = (is_upper c \<or> is_lower c)"

text \<open>\<open>\w\<close>, which decides \<open>\b\<close>.\<close>

definition is_word :: "nat \<Rightarrow> bool" where
  "is_word c = (is_letter c \<or> is_digit c \<or> c = 95)"

text \<open>\<open>\s\<close>, and what \<open>trim()\<close> strips: white space and line terminators.\<close>

definition is_space :: "nat \<Rightarrow> bool" where
  "is_space c =
     ((9 \<le> c \<and> c \<le> 13) \<or> c = 32 \<or> c = 160 \<or> c = 5760 \<or> (8192 \<le> c \<and> c \<le> 8202) \<or>
      c = 8232 \<or> c = 8233 \<or> c = 8239 \<or> c = 8287 \<or> c = 12288 \<or> c = 65279)"

text \<open>
  The backtracking matcher: all positions at which a match of the expression that starts
  at the given position can end, in the order in which backtracking tries them (greedy
  choices first).
\<close>

fun rep_ends :: "(nat \<Rightarrow> bool) \<Rightarrow> nat \<Rightarrow> nat option \<Rightarrow> position \<Rightarrow> position list" where
  "rep_ends P lo hi (seen, []) = (if lo = 0 then [(seen, [])] else [])"
| "rep_ends P lo hi (seen, c # rest) =
     (if P c \<and> hi \<noteq> Some 0
      then rep_ends P (lo - 1) (map_option (\<lambda>h. h - 1) hi) (c # seen, rest) else []) @
     (if lo = 0 then [(seen, c # rest)] else [])"

fun ends :: "regex \<Rightarrow> position \<Rightarrow> position list" where
  "ends (Cls P) (seen, rest) =
     (case rest of [] \<Rightarrow> [] | c # cs \<Rightarrow> if P c then [(c # seen, cs)] else [])"
| "ends (Seq r1 r2) pos = concat (map (ends r2) (ends r1 pos))"
| "ends (Alt r1 r2) pos = ends r1 pos @ ends r2 pos"
| "ends (Opt r) pos = ends r pos @ [pos]"
| "ends (Rep P lo hi) pos = rep_ends P lo hi pos"
| "ends WordBoundary (seen, rest) =
     (if (case seen of [] \<Rightarrow> False | c # _ \<Rightarrow> is_word c) \<noteq>
         (case rest of [] \<Rightarrow> False | c # _ \<Rightarrow> is_word c)
      then [(seen, rest)] else [])"
| "ends LineStart (seen, rest) = (if seen = [] then [(seen, rest)] else [])"
| "ends Eps pos = [pos]"

text \<open>
  The search of \<open>exec\<close>: the first start position, from the given one on, at which the
  expression matches, with the end backtracking finds first.
\<close>

fun find_from :: "regex \<Rightarrow> position \<Rightarrow> (position \<times> position) option" where
  "find_from r (seen, []) =
     (case ends r (seen, []) of [] \<Rightarrow> None | e # _ \<Rightarrow> Some ((seen, []), e))"
| "find_from r (seen, c # rest) =
     (case ends r (seen, c # rest) of
        [] \<Rightarrow> find_from r (c # seen, rest)
      | e # _ \<Rightarrow> Some ((seen, c # rest), e))"

text \<open>The text between a start and an end position.\<close>

definition matched :: "position \<Rightarrow> position \<Rightarrow> jsstring" where
  "matched s e = take (length (snd s) - length (snd e)) (snd s)"

text \<open>
  \<open>text.match(re)[0]\<close>, for a global or a plain expression: the first match from index 0,
  \<open>None\<close> for \<open>null\<close>.
\<close>

definition first_match :: "regex \<Rightarrow> jsstring \<Rightarrow> jsstring option" where
  "first_match r text =
     (case find_from r ([], text) of None \<Rightarrow> None | Some (s, e) \<Rightarrow> Some (matched s e))"

text \<open>
  \<open>text.match(re)[1]\<close> for an expression \<open>prefix(group)\<close> whose only capture group is its
  tail: the text of the group in the first match.
\<close>

fun find_group :: "regex \<Rightarrow> regex \<Rightarrow> position \<Rightarrow> jsstring option" where
  "find_group pre grp (seen, []) =
     (case concat (map (\<lambda>g. map (matched g) (ends grp g)) (ends pre (seen, []))) of
        [] \<Rightarrow> None | m # _ \<Rightarrow> Some m)"
| "find_group pre grp (seen, c # rest) =
     (case concat (map (\<lambda>g. map (matched g) (ends grp g)) (ends pre (seen, c # rest))) of
        [] \<Rightarrow> find_group pre grp (c # seen, rest)
      | m # _ \<Rightarrow> Some m)"

definition first_group :: "regex \<Rightarrow> regex \<Rightarrow> jsstring \<Rightarrow> jsstring option" where
  "first_group pre grp text = find_group pre grp ([], text)"

text \<open>
  \<open>re.test(s)\<close> on a global expression reads and writes \<open>re.lastIndex\<close>: the search
  starts there; a match moves it to the end of the match, a failure resets it to 0.
  The result is the answer and the new \<open>lastIndex\<close>.
\<close>

definition test_global :: "regex \<Rightarrow> nat \<Rightarrow> jsstring \<Rightarrow> bool \<times> nat" where
  "test_global r lastIndex s =
     (if length s < lastIndex then (False, 0)
      else case find_from r (rev (take lastIndex s), drop lastIndex s) of
             None \<Rightarrow> (False, 0)
           | Some (_, e) \<Rightarrow> (True, length s - length (snd e)))"

text \<open>
  Builders. Under the \<open>i\<close> flag a code unit of the pattern matches itself and, for an
  ASCII letter, the same letter in the other case.
\<close>

definition exactly :: "nat \<Rightarrow> nat \<Rightarrow> bool" where
  "exactly c x = (x = c)"

definition ci :: "nat \<Rightarrow> nat \<Rightarrow> bool" where
  "ci c x = (x = c \<or> (is_letter c \<and> is_letter x \<and> (x = c + 32 \<or> c = x + 32)))"

fun lit :: "(nat \<Rightarrow> nat \<Rightarrow> bool) \<Rightarrow> jsstring \<Rightarrow> regex" where
  "lit eq [] = Eps"
| "lit eq [c] = Cls (eq c)"
| "lit eq (c # cs) = Seq (Cls (eq c)) (lit eq cs)"

fun seqs :: "regex list \<Rightarrow> regex" where
  "seqs [] = Eps"
| "seqs [r] = r"
| "seqs (r # rs) = Seq r (seqs rs)"

fun alts :: "regex list \<Rightarrow> regex" where
  "alts [] = Eps"
| "alts [r] = r"
| "alts (r # rs) = Alt r (alts rs)"

section \<open>LeadExtractor (src/core/lead-extractor.ts, first document)\<close>

subsection \<open>The patterns\<close>

text \<open>\<open>/\b[A-Za-z0-9._%+-]+@[A-Za-z0-9.-]+\.[A-Z|a-z]{2,}\b/g\<close>\<close>

definition email_local :: "nat \<Rightarrow> bool" where
  "email_local c = (is_letter c \<or> is_digit c \<or> c = 46 \<or> c = 95 \<or> c = 37 \<or> c = 43 \<or> c = 45)"

definition email_domain :: "nat \<Rightarrow> bool" where
  "email_domain c = (is_letter c \<or> is_digit c \<or> c = 46 \<or> c = 45)"

definition email_tld :: "nat \<Rightarrow> bool" where
  "email_tld c = (is_letter c \<or> c = 124)"

definition email_pattern :: regex where
  "email_pattern =
     seqs [WordBoundary, Rep email_local 1 None, Cls (exactly 64), Rep email_domain 1 None,
           Cls (exactly 46), Rep email_tld 2 None, WordBoundary]"

text \<open>\<open>/(\+?1?[\s.-]?\(?\d{3}\)?[\s.-]?\d{3}[\s.-]?\d{4})/g\<close>\<close>

definition phone_sep :: "nat \<Rightarrow> bool" where
  "phone_sep c = (is_space c \<or> c = 46 \<or> c = 45)"

definition phone_pattern :: regex where
  "phone_pattern =
     seqs [Opt (Cls (exactly 43)), Opt (Cls (exactly 49)), Opt (Cls phone_sep),
           Opt (Cls (exactly 40)), Rep is_digit 3 (Some 3), Opt (Cls (exactly 41)),
           Opt (Cls phone_sep), Rep is_digit 3 (Some 3), Opt (Cls phone_sep),
           Rep is_digit 4 (Some 4)]"

text \<open>
  The name indicators, all with the \<open>i\<close> flag, so that \<open>[A-Z]\<close> and \<open>[a-z]\<close> both match
  any ASCII letter. Each is a prefix followed by the one capture group
  \<open>([A-Z][a-z]+(?:\s+[A-Z][a-z]+)?)\<close>.
\<close>

definition spaces :: regex where
  "spaces = Rep is_space 1 None"

definition word_i :: regex where
  "word_i = Seq (Cls is_letter) (Rep is_letter 1 None)"

definition name_group :: regex where
  "name_group = Seq word_i (Opt (Seq spaces word_i))"

definition apostrophe :: nat where
  "apostrophe = 39"

definition nameIndicators :: "regex list" where
  "nameIndicators =
     [seqs [lit ci (str ''my name''), Alt (lit ci (apostrophe # str ''s'')) (lit ci (str '' is'')), spaces],
      seqs [lit ci (str ''i''), Alt (lit ci (apostrophe # str ''m'')) (lit ci (str '' am'')), spaces],
      seqs [lit ci (str ''this is''), spaces],
      seqs [lit ci (str ''call me''), spaces],
      seqs [lit ci (str ''i''), Alt (lit ci (apostrophe # str ''m'')) (lit ci (str '' am'')),
            lit ci (str '' called''), spaces]]"

text \<open>\<open>/^(?:hi|hello|hey)\s+([A-Z][a-z]+)/i\<close>\<close>

definition greeting_prefix :: regex where
  "greeting_prefix =
     seqs [LineStart, alts [lit ci (str ''hi''), lit ci (str ''hello''), lit ci (str ''hey'')], spaces]"

text \<open>
  The company indicators, with the \<open>i\<close> flag: \<open>work (?:at|for)\s+([A-Z][^,.]+)\<close>,
  \<open>company is\s+([A-Z][^,.]+)\<close> and
  \<open>from\s+([A-Z][^,.]+(?:inc|llc|corp|company|co\.|ltd)\.?)\<close>, as prefix and group.
\<close>

definition not_comma_dot :: "nat \<Rightarrow> bool" where
  "not_comma_dot c = (c \<noteq> 44 \<and> c \<noteq> 46)"

definition company_group :: regex where
  "company_group = Seq (Cls is_letter) (Rep not_comma_dot 1 None)"

definition company_suffix_group :: regex where
  "company_suffix_group =
     seqs [Cls is_letter, Rep not_comma_dot 1 None,
           alts [lit ci (str ''inc''), lit ci (str ''llc''), lit ci (str ''corp''),
                 lit ci (str ''company''), lit ci (str ''co.''), lit ci (str ''ltd'')],
           Opt (Cls (exactly 46))]"

definition companyIndicators :: "(regex \<times> regex) list" where
  "companyIndicators =
     [(seqs [lit ci (str ''work ''), Alt (lit ci (str ''at'')) (lit ci (str ''for'')), spaces],
       company_group),
      (seqs [lit ci (str ''company is''), spaces], company_group),
      (seqs [lit ci (str ''from''), spaces], company_suffix_group)]"

subsection \<open>The extractor\<close>

definition trim :: "jsstring \<Rightarrow> jsstring" where
  "trim s = rev (dropWhile is_space (rev (dropWhile is_space s)))"

text \<open>A JavaScript value that is a string or \<open>undefined\<close>, and its truthiness.\<close>

definition truthy :: "jsstring option \<Rightarrow> bool" where
  "truthy v = (case v of None \<Rightarrow> False | Some s \<Rightarrow> s \<noteq> [])"

fun extractName_loop :: "regex list \<Rightarrow> jsstring \<Rightarrow> jsstring option" where
  "extractName_loop [] text = None"
| "extractName_loop (pattern # others) text =
     (case first_group pattern name_group text of
        Some g \<Rightarrow> Some (trim g)
      | None \<Rightarrow> extractName_loop others text)"

definition extractName :: "jsstring \<Rightarrow> jsstring option" where
  "extractName text =
     (case extractName_loop nameIndicators text of
        Some n \<Rightarrow> Some n
      | None \<Rightarrow>
          (case first_group greeting_prefix word_i text of
             Some g \<Rightarrow> Some (trim g)
           | None \<Rightarrow> None))"

fun extractCompany_loop :: "(regex \<times> regex) list \<Rightarrow> jsstring \<Rightarrow> jsstring option" where
  "extractCompany_loop [] text = None"
| "extractCompany_loop ((pre, grp) # others) text =
     (case first_group pre grp text of
        Some g \<Rightarrow> Some (trim g)
      | None \<Rightarrow> extractCompany_loop others text)"

definition extractCompany :: "jsstring \<Rightarrow> jsstring option" where
  "extractCompany text = extractCompany_loop companyIndicators text"

definition normalizePhone :: "jsstring \<Rightarrow> jsstring" where
  "normalizePhone phone =
     (let digits = filter (\<lambda>c. is_digit c \<or> c = 43) phone
      in if length digits = 11 \<and> take 1 digits = [49] then 43 # digits
         else if length digits = 10 then [43, 49] @ digits
         else digits)"

definition validatePhone :: "jsstring \<Rightarrow> bool" where
  "validatePhone phone =
     (let digits = filter is_digit phone in 10 \<le> length digits \<and> length digits \<le> 15)"

text \<open>
  \<open>Partial<LeadInfo>\<close>: the own properties of the object by key; a property can be
  present with the value \<open>undefined\<close>. Spreading \<open>{...a, ...b}\<close> and \<open>Object.assign\<close> are
  \<open>a ++ b\<close>.
\<close>

datatype lead_key = KName | KEmail | KPhone | KCompany | KNotes

type_synonym partial_lead = "lead_key \<rightharpoonup> jsstring option"

definition property :: "partial_lead \<Rightarrow> lead_key \<Rightarrow> jsstring option" where
  "property obj k = (case obj k of None \<Rightarrow> None | Some v \<Rightarrow> v)"

record lead_info =
  name :: "jsstring option"
  email :: "jsstring option"
  phone :: "jsstring option"
  company :: "jsstring option"
  lead_notes :: "jsstring option"
  conf_name :: "rat option"
  conf_email :: "rat option"
  conf_phone :: "rat option"

record extractor_config =
  minConfidence :: rat
  extractOnEveryMessage :: bool
  extractOnConversationEnd :: bool
  customExtractors :: "(jsstring \<Rightarrow> partial_lead) list"

datatype extractor_log =
    DebugEmail jsstring | DebugPhone jsstring | DebugName jsstring | DebugCompany jsstring
  | DebugReset

text \<open>
  The extractor object: the accumulated fields, the \<open>lastIndex\<close> of the global
  \<open>patterns.email\<close> (the one expression that is used with \<open>test\<close>), the leads emitted
  and the lines logged. The \<open>lastIndex\<close> of \<open>patterns.phone\<close> is only written by
  \<open>match\<close>, which leaves it 0.
\<close>

record extractor =
  currentLead :: partial_lead
  emailLastIndex :: nat
  x_emitted :: "lead_info list"
  x_logged :: "extractor_log list"

definition new_extractor :: extractor where
  "new_extractor = \<lparr>currentLead = Map.empty, emailLastIndex = 0, x_emitted = [], x_logged = []\<rparr>"

definition default_extractor_config :: extractor_config where
  "default_extractor_config =
     \<lparr>minConfidence = 7 / 10, extractOnEveryMessage = True, extractOnConversationEnd = True,
      customExtractors = []\<rparr>"

definition validateEmail :: "jsstring \<Rightarrow> extractor \<Rightarrow> bool \<times> extractor" where
  "validateEmail e ex =
     (let (ok, li) = test_global email_pattern (emailLastIndex ex) e
      in (ok, ex\<lparr>emailLastIndex := li\<rparr>))"

definition buildLeadInfo :: "extractor \<Rightarrow> lead_info \<times> extractor" where
  "buildLeadInfo ex =
     (let cn = (if truthy (property (currentLead ex) KName) then Some (85 / 100) else None);
          (ce, ex1) =
            (case property (currentLead ex) KEmail of
               None \<Rightarrow> (None, ex)
             | Some e \<Rightarrow>
                 if e = [] then (None, ex)
                 else let (ok, ex') = validateEmail e ex
                      in (Some (if ok then 1 else 1 / 2), ex'));
          cp =
            (case property (currentLead ex1) KPhone of
               None \<Rightarrow> None
             | Some p \<Rightarrow>
                 if p = [] then None
                 else Some (if validatePhone p then 1 else 1 / 2))
      in (\<lparr>name = property (currentLead ex1) KName,
           email = property (currentLead ex1) KEmail,
           phone = property (currentLead ex1) KPhone,
           company = property (currentLead ex1) KCompany,
           lead_notes = property (currentLead ex1) KNotes,
           conf_name = cn, conf_email = ce, conf_phone = cp\<rparr>, ex1))"

definition hasMinimumInfo :: "lead_info \<Rightarrow> bool" where
  "hasMinimumInfo lead =
     (1 \<le> (if truthy (name lead) then 1 else 0) + (if truthy (email lead) then 1 else 0) +
           (if truthy (phone lead) then (1::nat) else 0))"

definition reset :: "extractor \<Rightarrow> extractor" where
  "reset ex = ex\<lparr>currentLead := Map.empty, x_logged := x_logged ex @ [DebugReset]\<rparr>"

text \<open>
  The built-in extraction steps of \<open>processMessage\<close>, each on the updates so far and the
  log. \<open>text.match\<close> on the global \<open>patterns.email\<close> leaves its \<open>lastIndex\<close> at 0.
\<close>

definition extract_updates :: "jsstring \<Rightarrow> partial_lead \<times> extractor_log list" where
  "extract_updates text =
     (let (u1, l1) =
            (case first_match email_pattern text of
               None \<Rightarrow> (Map.empty, [])
             | Some e \<Rightarrow> ([KEmail \<mapsto> Some e], [DebugEmail e]));
          (u2, l2) =
            (case first_match phone_pattern text of
               None \<Rightarrow> (u1, l1)
             | Some p \<Rightarrow> (u1(KPhone \<mapsto> Some (normalizePhone p)), l1 @ [DebugPhone (normalizePhone p)]));
          (u3, l3) =
            (case extractName text of
               None \<Rightarrow> (u2, l2)
             | Some n \<Rightarrow> if n = [] then (u2, l2) else (u2(KName \<mapsto> Some n), l2 @ [DebugName n]));
          (u4, l4) =
            (case extractCompany text of
               None \<Rightarrow> (u3, l3)
             | Some c \<Rightarrow> if c = [] then (u3, l3) else (u3(KCompany \<mapsto> Some c), l3 @ [DebugCompany c]))
      in (u4, l4))"

definition processMessage ::
  "extractor_config \<Rightarrow> message \<Rightarrow> extractor \<Rightarrow> lead_info option \<times> extractor" where
  "processMessage cfg msg ex =
     (if role msg \<noteq> RoleUser then (None, ex)
      else
        let text = content msg;
            (builtin, lines) = extract_updates text;
            updates = foldl (\<lambda>u extractor. u ++ extractor text) builtin (customExtractors cfg);
            ex1 = ex\<lparr>currentLead := currentLead ex ++ updates, emailLastIndex := 0,
                     x_logged := x_logged ex @ lines\<rparr>;
            (lead, ex2) = buildLeadInfo ex1
        in if hasMinimumInfo lead \<and> extractOnEveryMessage cfg
           then (Some lead, ex2\<lparr>x_emitted := x_emitted ex2 @ [lead]\<rparr>)
           else (None, ex2))"

text \<open>The loop of \<open>processConversation\<close>; the results of \<open>processMessage\<close> are dropped.\<close>

fun replay :: "extractor_config \<Rightarrow> message list \<Rightarrow> extractor \<Rightarrow> extractor" where
  "replay cfg [] ex = ex"
| "replay cfg (msg # msgs) ex = replay cfg msgs (snd (processMessage cfg msg ex))"

definition processConversation ::
  "extractor_config \<Rightarrow> conversation_state \<Rightarrow> extractor \<Rightarrow> lead_info option \<times> extractor" where
  "processConversation cfg st ex =
     (let ex1 = replay cfg (messages st) (reset ex);
          (lead, ex2) = buildLeadInfo ex1
      in if hasMinimumInfo lead
         then (Some lead, ex2\<lparr>x_emitted := x_emitted ex2 @ [lead]\<rparr>)
         else (None, ex2))"

definition getCurrentLead :: "extractor \<Rightarrow> lead_info \<times> extractor" where
  "getCurrentLead ex = buildLeadInfo ex"

definition hasCompleteLead :: "extractor \<Rightarrow> bool \<times> extractor" where
  "hasCompleteLead ex =
     (let (lead, ex1) = buildLeadInfo ex
      in (truthy (name lead) \<and> truthy (email lead) \<and> truthy (phone lead), ex1))"

definition user_message :: "jsstring \<Rightarrow> message" where
  "user_message text = \<lparr>role = RoleUser, content = text, timestamp = None, msg_metadata = None\<rparr>"

section \<open>VoxAgent: connection and reconnection (src/index.ts, second document)\<close>

text \<open>
  The part of the agent that the reconnection policy reads and writes, with its
  conversation manager. An \<open>Error\<close> is modelled by its message. \<open>scheduled\<close> lists the
  delays of the \<open>setTimeout\<close> calls made so far, oldest first, and \<open>a_output\<close> what the
  agent has emitted to its listeners and which optional callbacks of its configuration
  it has reached.

  The agent is a Node event emitter. \<open>errorListeners\<close> counts the listeners registered
  for its \<open>error\<close> event: the constructor registers none, \<open>agent.on('error', ...)\<close> adds
  one. With no such listener \<open>emit('error', error, ...)\<close> throws the error.

  What is outside the agent is an input of the model: what the provider's
  \<open>initialize()\<close> and \<open>connect()\<close> do, and whether a listener, a plugin hook or a
  callback that the agent runs returns or throws.
\<close>

type_synonym error = jsstring

datatype provider_outcome = ProviderConnects | InitializeRejects error | ConnectRejects error

text \<open>
  The code \<open>handleError\<close> runs: the listeners of \<open>error\<close>, then \<open>config.onError\<close>.
\<close>

datatype error_hooks = ErrorHooksReturn | ErrorListenerThrows error | OnErrorThrows error

text \<open>
  The code \<open>connect()\<close> runs once the provider has connected: the agent's listener of the
  manager's \<open>message\<close> event, which calls \<open>onMessage\<close> of every plugin (for the system
  prompt), then \<open>config.onConnect\<close>, then the listeners of \<open>connect\<close>. (The agent
  registers no listener for the manager's \<open>started\<close> event.)
\<close>

datatype connect_hooks =
    ConnectHooksReturn
  | MessageHookThrows error
  | OnConnectThrows error
  | ConnectListenerThrows error

datatype agent_output =
    EmitError error string
  | CallOnError error string
  | CallOnConnect bool
  | EmitConnect bool

datatype agent_log =
    LogError string error
  | LogInitializing
  | LogConnecting
  | LogConnected
  | LogAttempting nat nat
  | LogReconnectionFailed error

record agent_config =
  systemPrompt :: "jsstring option"
  agent_maxConversationDuration :: nat
  agent_silenceTimeoutMs :: nat

record agent =
  isConnected :: bool
  reconnectAttempts :: nat
  maxReconnectAttempts :: nat
  reconnectDelay :: nat
  errorListeners :: nat
  conversationManager :: manager
  scheduled :: "nat list"
  a_output :: "agent_output list"
  a_logged :: "agent_log list"

text \<open>The manager the constructor builds: the two settings passed on, the rest default.\<close>

definition manager_config_of :: "agent_config \<Rightarrow> manager_config" where
  "manager_config_of cfg =
     \<lparr>maxMessages = 100, maxConversationDuration = agent_maxConversationDuration cfg,
      silenceTimeoutMs = agent_silenceTimeoutMs cfg, enableMetadata = True\<rparr>"

definition new_agent :: "jsstring \<Rightarrow> nat \<Rightarrow> agent" where
  "new_agent newId now =
     \<lparr>isConnected = False, reconnectAttempts = 0, maxReconnectAttempts = 5,
      reconnectDelay = 1000, errorListeners = 0, conversationManager = new_manager newId now,
      scheduled = [], a_output = [], a_logged = []\<rparr>"

text \<open>\<open>agent.on('error', listener)\<close>, inherited from the emitter.\<close>

definition on_error :: "agent \<Rightarrow> agent" where
  "on_error a = a\<lparr>errorListeners := Suc (errorListeners a)\<rparr>"

text \<open>
  \<open>handleError(error, context)\<close>: the result is what the call throws (\<open>None\<close> when it
  returns) and the agent afterwards. The steps are, in the order of the source: the log
  line, \<open>this.emit('error', ...)\<close>, \<open>this.config.onError?.(...)\<close>, the reconnection.
\<close>

definition handleError :: "error \<Rightarrow> string \<Rightarrow> error_hooks \<Rightarrow> agent \<Rightarrow> error option \<times> agent" where
  "handleError err ctx hooks a =
     (let a1 = a\<lparr>a_logged := a_logged a @ [LogError ctx err]\<rparr>
      in if errorListeners a1 = 0 then (Some err, a1)
         else
           let a2 = a1\<lparr>a_output := a_output a1 @ [EmitError err ctx]\<rparr>
           in case hooks of
                ErrorListenerThrows x \<Rightarrow> (Some x, a2)
              | OnErrorThrows x \<Rightarrow> (Some x, a2\<lparr>a_output := a_output a2 @ [CallOnError err ctx]\<rparr>)
              | ErrorHooksReturn \<Rightarrow>
                  let a3 = a2\<lparr>a_output := a_output a2 @ [CallOnError err ctx]\<rparr>
                  in if isConnected a3 \<and> reconnectAttempts a3 < maxReconnectAttempts a3
                     then
                       let a4 = a3\<lparr>reconnectAttempts := reconnectAttempts a3 + 1\<rparr>
                       in (None,
                           a4\<lparr>a_logged := a_logged a4 @
                                  [LogAttempting (reconnectAttempts a4) (maxReconnectAttempts a4)],
                               scheduled := scheduled a4 @ [reconnectDelay a4 * reconnectAttempts a4]\<rparr>)
                     else (None, a3))"

text \<open>
  \<open>addMessage\<close> on an active conversation when a listener of \<open>message\<close> throws: the
  message is pushed and the history trimmed, the event is emitted, and the call ends
  there, before the timer is reset and the debug line logged.
\<close>

definition addMessage_listener_throws ::
  "manager_config \<Rightarrow> role \<Rightarrow> jsstring \<Rightarrow> jsrecord option \<Rightarrow> nat \<Rightarrow> nat \<Rightarrow> manager \<Rightarrow> manager" where
  "addMessage_listener_throws cfg r c md t1 t2 m =
     (let msg = \<lparr>role = r, content = c, timestamp = Some t1,
                msg_metadata = (if enableMetadata cfg then md else None)\<rparr>;
          pushed = messages (state m) @ [msg];
          trimmed = (if maxMessages cfg < length pushed
                     then slice_from (- int (maxMessages cfg)) pushed else pushed)
      in m\<lparr>state := (state m)\<lparr>messages := trimmed, lastActivityAt := t2\<rparr>,
            emitted := emitted m @ [EvMessage msg]\<rparr>)"

text \<open>
  The \<open>try\<close> block of \<open>connect()\<close>: \<open>Inl\<close> is the error thrown and the agent at that
  point, \<open>Inr\<close> the agent when the block completes. \<open>isConnected\<close> is set and the counter
  reset as soon as the provider has connected, before the conversation is started and
  the hooks run. \<open>newId\<close>, \<open>now\<close>, \<open>t1\<close> and \<open>t2\<close> are the identifier and the clock
  readings used by \<open>start()\<close> and \<open>addMessage\<close>.
\<close>

definition connect_try ::
  "agent_config \<Rightarrow> provider_outcome \<Rightarrow> connect_hooks \<Rightarrow> jsstring \<Rightarrow> nat \<Rightarrow> nat \<Rightarrow> nat \<Rightarrow>
   agent \<Rightarrow> (error \<times> agent) + agent" where
  "connect_try cfg outcome hooks newId now t1 t2 a =
     (case outcome of
        InitializeRejects e \<Rightarrow> Inl (e, a\<lparr>a_logged := a_logged a @ [LogInitializing]\<rparr>)
      | ConnectRejects e \<Rightarrow>
          Inl (e, a\<lparr>a_logged := a_logged a @ [LogInitializing, LogConnecting]\<rparr>)
      | ProviderConnects \<Rightarrow>
          let a1 = a\<lparr>a_logged := a_logged a @ [LogInitializing, LogConnecting],
                     isConnected := True, reconnectAttempts := 0\<rparr>;
              cm1 = start (manager_config_of cfg) newId now (conversationManager a1);
              prompt = (case systemPrompt cfg of None \<Rightarrow> [] | Some p \<Rightarrow> p)
          in case (if prompt = [] then Inr cm1
                   else case hooks of
                          MessageHookThrows x \<Rightarrow>
                            Inl (x, addMessage_listener_throws (manager_config_of cfg)
                                      RoleSystem prompt None t1 t2 cm1)
                        | _ \<Rightarrow> Inr (addMessage (manager_config_of cfg)
                                       RoleSystem prompt None t1 t2 cm1)) of
               Inl (x, cm2) \<Rightarrow> Inl (x, a1\<lparr>conversationManager := cm2\<rparr>)
             | Inr cm2 \<Rightarrow>
                 let a2 = a1\<lparr>conversationManager := cm2,
                            a_output := a_output a1 @ [CallOnConnect True]\<rparr>
                 in case hooks of
                      OnConnectThrows x \<Rightarrow> Inl (x, a2)
                    | ConnectListenerThrows x \<Rightarrow>
                        Inl (x, a2\<lparr>a_output := a_output a2 @ [EmitConnect True]\<rparr>)
                    | _ \<Rightarrow>
                        Inr (a2\<lparr>a_output := a_output a2 @ [EmitConnect True],
                                a_logged := a_logged a2 @ [LogConnected]\<rparr>))"

text \<open>
  \<open>connect()\<close>: the result is the error the returned promise rejects with (\<open>None\<close> when
  it resolves) and the agent afterwards. The \<open>catch\<close> block passes the error to
  \<open>handleError\<close> and throws it again; when \<open>handleError\<close> throws, that is the rejection.
\<close>

definition connect ::
  "agent_config \<Rightarrow> provider_outcome \<Rightarrow> connect_hooks \<Rightarrow> error_hooks \<Rightarrow>
   jsstring \<Rightarrow> nat \<Rightarrow> nat \<Rightarrow> nat \<Rightarrow> agent \<Rightarrow> error option \<times> agent" where
  "connect cfg outcome hooks ehooks newId now t1 t2 a =
     (case connect_try cfg outcome hooks newId now t1 t2 a of
        Inr a' \<Rightarrow> (None, a')
      | Inl (e, a') \<Rightarrow>
          (case handleError e ''connect'' ehooks a' of
             (None, a'') \<Rightarrow> (Some e, a'')
           | (Some x, a'') \<Rightarrow> (Some x, a'')))"

text \<open>
  The timer callback \<open>this.connect().catch(...)\<close>: a failed reconnection is logged and goes
  no further.
\<close>

definition reconnect_callback ::
  "agent_config \<Rightarrow> provider_outcome \<Rightarrow> connect_hooks \<Rightarrow> error_hooks \<Rightarrow>
   jsstring \<Rightarrow> nat \<Rightarrow> nat \<Rightarrow> nat \<Rightarrow> agent \<Rightarrow> agent" where
  "reconnect_callback cfg outcome hooks ehooks newId now t1 t2 a =
     (case connect cfg outcome hooks ehooks newId now t1 t2 a of
        (None, a') \<Rightarrow> a'
      | (Some e, a') \<Rightarrow> a'\<lparr>a_logged := a_logged a' @ [LogReconnectionFailed e]\<rparr>)"

text \<open>
  A failure the agent sees while its hooks return: an error passed to \<open>handleError\<close> by a
  provider, audio or socket callback, or a reconnection whose \<open>initialize()\<close> or
  \<open>connect()\<close> rejects.
\<close>

datatype failure =
    ErrorHandled error string
  | ReconnectInitializeRejected error
  | ReconnectConnectRejected error

fun after_failure :: "agent_config \<Rightarrow> failure \<Rightarrow> agent \<Rightarrow> agent" where
  "after_failure cfg (ErrorHandled e ctx) a = snd (handleError e ctx ErrorHooksReturn a)"
| "after_failure cfg (ReconnectInitializeRejected e) a =
     reconnect_callback cfg (InitializeRejects e) ConnectHooksReturn ErrorHooksReturn [] 0 0 0 a"
| "after_failure cfg (ReconnectConnectRejected e) a =
     reconnect_callback cfg (ConnectRejects e) ConnectHooksReturn ErrorHooksReturn [] 0 0 0 a"

fun after_failures :: "agent_config \<Rightarrow> failure list \<Rightarrow> agent \<Rightarrow> agent" where
  "after_failures cfg [] a = a"
| "after_failures cfg (f # fs) a = after_failures cfg fs (after_failure cfg f a)"

section \<open>The getters of ConversationManager on a store\<close>

text \<open>
  Arrays and objects are references in JavaScript. To follow what a caller can reach
  through a returned value, the conversation state is modelled a second time with an
  explicit store: an array holds the addresses of its elements, and the state object
  holds the addresses of its \<open>messages\<close> array and its \<open>metadata\<close> object.
\<close>

type_synonym addr = nat

datatype obj = ArrayObj "addr list" | MessageObj message | RecordObj jsrecord

record store =
  objs :: "addr \<rightharpoonup> obj"
  next_addr :: addr

definition alloc :: "obj \<Rightarrow> store \<Rightarrow> addr \<times> store" where
  "alloc x h = (next_addr h, h\<lparr>objs := (objs h)(next_addr h \<mapsto> x), next_addr := Suc (next_addr h)\<rparr>)"

text \<open>The fields of a \<open>ConversationState\<close> object; two of them are references.\<close>

record state_object =
  so_id :: jsstring
  so_messages :: addr
  so_isActive :: bool
  so_startedAt :: nat
  so_lastActivityAt :: nat
  so_metadata :: addr

definition elements :: "store \<Rightarrow> addr \<Rightarrow> addr list" where
  "elements h a = (case objs h a of Some (ArrayObj xs) \<Rightarrow> xs | _ \<Rightarrow> [])"

text \<open>What reading an array of messages through a reference sees.\<close>

definition read_messages :: "store \<Rightarrow> addr \<Rightarrow> message list" where
  "read_messages h a =
     List.map_filter (\<lambda>x. case objs h x of Some (MessageObj m) \<Rightarrow> Some m | _ \<Rightarrow> None) (elements h a)"

definition read_record :: "store \<Rightarrow> addr \<Rightarrow> jsrecord" where
  "read_record h a = (case objs h a of Some (RecordObj r) \<Rightarrow> r | _ \<Rightarrow> Map.empty)"

text \<open>\<open>createNewConversation\<close>: a fresh array and a fresh metadata object.\<close>

definition store_createNewConversation :: "jsstring \<Rightarrow> nat \<Rightarrow> store \<Rightarrow> state_object \<times> store" where
  "store_createNewConversation newId now h =
     (let (ms, h1) = alloc (ArrayObj []) h;
          (md, h2) = alloc (RecordObj Map.empty) h1
      in (\<lparr>so_id = newId, so_messages = ms, so_isActive = True, so_startedAt = now,
           so_lastActivityAt = now, so_metadata = md\<rparr>, h2))"

text \<open>
  \<open>addMessage\<close>: \<open>push\<close> changes the array in place; a trim assigns a new array to the
  field.
\<close>

definition store_addMessage ::
  "manager_config \<Rightarrow> role \<Rightarrow> jsstring \<Rightarrow> jsrecord option \<Rightarrow> nat \<Rightarrow> nat \<Rightarrow>
   state_object \<times> store \<Rightarrow> state_object \<times> store" where
  "store_addMessage cfg r c md t1 t2 sh =
     (let (so, h) = sh
      in if \<not> so_isActive so then (so, h)
         else
           let (m, h1) = alloc (MessageObj \<lparr>role = r, content = c, timestamp = Some t1,
                                  msg_metadata = (if enableMetadata cfg then md else None)\<rparr>) h;
               pushed = elements h1 (so_messages so) @ [m];
               h2 = h1\<lparr>objs := (objs h1)(so_messages so \<mapsto> ArrayObj pushed)\<rparr>;
               so1 = so\<lparr>so_lastActivityAt := t2\<rparr>
           in if maxMessages cfg < length pushed
              then let (ms, h3) = alloc (ArrayObj (slice_from (- int (maxMessages cfg)) pushed)) h2
                   in (so1\<lparr>so_messages := ms\<rparr>, h3)
              else (so1, h2))"

text \<open>
  The getters. \<open>{ ...this.state }\<close> is a new object with the same field values, so the
  same two references; \<open>[...this.state.messages]\<close> and \<open>slice\<close> are new arrays with the
  same elements.
\<close>

definition store_getState :: "state_object \<Rightarrow> state_object" where
  "store_getState so = so"

definition store_getMessages :: "state_object \<Rightarrow> store \<Rightarrow> addr \<times> store" where
  "store_getMessages so h = alloc (ArrayObj (elements h (so_messages so))) h"

definition store_getLastMessages :: "int \<Rightarrow> state_object \<Rightarrow> store \<Rightarrow> addr \<times> store" where
  "store_getLastMessages count so h =
     alloc (ArrayObj (slice_from (- count) (elements h (so_messages so)))) h"

text \<open>What a caller can do with a reference: push on an array, assign a field of a
  message, assign a key of a record.\<close>

definition array_push :: "addr \<Rightarrow> addr \<Rightarrow> store \<Rightarrow> store" where
  "array_push a x h =
     (case objs h a of
        Some (ArrayObj xs) \<Rightarrow> h\<lparr>objs := (objs h)(a \<mapsto> ArrayObj (xs @ [x]))\<rparr>
      | _ \<Rightarrow> h)"

definition assign_content :: "addr \<Rightarrow> jsstring \<Rightarrow> store \<Rightarrow> store" where
  "assign_content a c h =
     (case objs h a of
        Some (MessageObj m) \<Rightarrow> h\<lparr>objs := (objs h)(a \<mapsto> MessageObj (m\<lparr>content := c\<rparr>))\<rparr>
      | _ \<Rightarrow> h)"

definition assign_key :: "addr \<Rightarrow> string \<Rightarrow> jsval \<Rightarrow> store \<Rightarrow> store" where
  "assign_key a k v h =
     (case objs h a of
        Some (RecordObj r) \<Rightarrow> h\<lparr>objs := (objs h)(a \<mapsto> RecordObj (r(k \<mapsto> v)))\<rparr>
      | _ \<Rightarrow> h)"

definition empty_store :: store where
  "empty_store = \<lparr>objs = Map.empty, next_addr = 0\<rparr>"

section \<open>Sample values and notions used in the properties\<close>

subsection \<open>Sample configurations and inputs\<close>

text \<open>The \<open>i\<close>-th of a run of numbered user messages.\<close>

definition numbered_call :: "nat \<Rightarrow> add_call" where
  "numbered_call i = (RoleUser, [i], None, i, i)"

text \<open>Manager configurations: a limit of 0, metadata switched off, the defaults.\<close>

definition zero_limit_config :: manager_config where
  "zero_limit_config =
     \<lparr>maxMessages = 0, maxConversationDuration = 3600, silenceTimeoutMs = 0,
      enableMetadata = True\<rparr>"

text \<open>A final transcript segment.\<close>

definition sample_segment :: segment where
  "sample_segment =
     \<lparr>seg_id = str ''seg-1'', seg_text = str ''I need help'', seg_isFinal = True,
      seg_timestamp = 7, seg_speaker = None, seg_confidence = Some (9 / 10)\<rparr>"

definition no_metadata_config :: manager_config where
  "no_metadata_config =
     \<lparr>maxMessages = 100, maxConversationDuration = 3600, silenceTimeoutMs = 0,
      enableMetadata = False\<rparr>"

definition default_manager_config :: manager_config where
  "default_manager_config =
     \<lparr>maxMessages = 100, maxConversationDuration = 3600, silenceTimeoutMs = 30000,
      enableMetadata = True\<rparr>"

text \<open>A conversation that holds the messages numbered 1 to 3.\<close>

definition three_messages :: manager where
  "three_messages =
     addMessages default_manager_config (map numbered_call [1..<4]) (new_manager (str ''conv-0'') 0)"

text \<open>A pipeline whose buffer is due at 4800 bytes (100 ms at 24 kHz, 16 bit).\<close>

definition sample_pipeline_config :: pipeline_config where
  "sample_pipeline_config = \<lparr>flushDue = (\<lambda>n. 4800 \<le> n)\<rparr>"

definition sample_agent_config :: agent_config where
  "sample_agent_config =
     \<lparr>systemPrompt = Some (str ''You are a helpful assistant.''),
      agent_maxConversationDuration = 3600, agent_silenceTimeoutMs = 30000\<rparr>"

text \<open>
  An agent after its first successful \<open>connect()\<close>, as the constructor leaves it (no
  listener for \<open>error\<close>), and one on which \<open>agent.on('error', ...)\<close> was called first.
\<close>

definition connected_agent :: agent where
  "connected_agent =
     snd (connect sample_agent_config ProviderConnects ConnectHooksReturn ErrorHooksReturn
            (str ''conv-1'') 0 1 1 (new_agent (str ''conv-0'') 0))"

definition listening_agent :: agent where
  "listening_agent =
     snd (connect sample_agent_config ProviderConnects ConnectHooksReturn ErrorHooksReturn
            (str ''conv-1'') 0 1 1 (on_error (new_agent (str ''conv-0'') 0)))"

text \<open>Two messages.\<close>

definition hello :: message where
  "hello = \<lparr>role = RoleUser, content = str ''hello'', timestamp = Some 1, msg_metadata = None\<rparr>"

definition intruder :: message where
  "intruder = \<lparr>role = RoleAssistant, content = str ''forged'', timestamp = None, msg_metadata = None\<rparr>"

text \<open>A started conversation with the one message \<open>hello\<close>: its state object and the store.\<close>

definition one_message :: "state_object \<times> store" where
  "one_message =
     store_addMessage default_manager_config RoleUser (str ''hello'') None 1 1
       (store_createNewConversation (str ''conv-1'') 0 empty_store)"

text \<open>An ended conversation that holds the given messages.\<close>

definition history :: "message list \<Rightarrow> conversation_state" where
  "history msgs =
     \<lparr>conv_id = str ''c1'', messages = msgs, isActive = False, startedAt = 0,
      lastActivityAt = 0, metadata = Map.empty\<rparr>"

text \<open>A message of the assistant.\<close>

definition assistant_message :: "jsstring \<Rightarrow> message" where
  "assistant_message text =
     \<lparr>role = RoleAssistant, content = text, timestamp = None, msg_metadata = None\<rparr>"

text \<open>
  The \<open>updates\<close> object \<open>processMessage\<close> builds from the text of a user message: the
  built-in extractions, then what each custom extractor returns, assigned in order.
\<close>

definition message_updates :: "extractor_config \<Rightarrow> jsstring \<Rightarrow> partial_lead" where
  "message_updates cfg text =
     foldl (\<lambda>u extractor. u ++ extractor text) (fst (extract_updates text)) (customExtractors cfg)"

subsection \<open>Notions of the proofs\<close>

text \<open>
  The texts an expression can consume, whatever stands around them. Every end position
  the matcher reports is reached by consuming such a text.
\<close>

fun lang :: "regex \<Rightarrow> jsstring set" where
  "lang (Cls P) = {[c] | c. P c}"
| "lang (Seq r1 r2) = {u @ v | u v. u \<in> lang r1 \<and> v \<in> lang r2}"
| "lang (Alt r1 r2) = lang r1 \<union> lang r2"
| "lang (Opt r) = insert [] (lang r)"
| "lang (Rep P lo hi) =
     {w. list_all P w \<and> lo \<le> length w \<and> (case hi of None \<Rightarrow> True | Some h \<Rightarrow> length w \<le> h)}"
| "lang WordBoundary = {[]}"
| "lang LineStart = {[]}"
| "lang Eps = {[]}"

text \<open>
  What \<open>validateEmail\<close> answers for the current email, if \<open>buildLeadInfo\<close> asks: the
  result of \<open>test\<close>, which starts at the \<open>lastIndex\<close> the expression was left with.
\<close>

definition email_check :: "extractor \<Rightarrow> (bool \<times> nat) option" where
  "email_check ex =
     (case property (currentLead ex) KEmail of
        None \<Rightarrow> None
      | Some e \<Rightarrow> if e = [] then None
                  else Some (test_global email_pattern (emailLastIndex ex) e))"

text \<open>
  Two extractors agree when they hold the same fields and, unless no field is set,
  the same \<open>lastIndex\<close>.
\<close>

definition agree :: "extractor \<Rightarrow> extractor \<Rightarrow> bool" where
  "agree e1 e2 =
     (currentLead e1 = currentLead e2 \<and>
      (emailLastIndex e1 = emailLastIndex e2 \<or> currentLead e1 = Map.empty))"

section \<open>Properties of ConversationManager\<close>

lemma slice_from_zero: "slice_from 0 xs = xs"
  by (simp add: slice_from_def)

lemma slice_from_neg: "0 < n \<Longrightarrow> slice_from (- int n) xs = drop (length xs - n) xs"
  by (auto simp add: slice_from_def Let_def max_def nat_diff_distrib' intro!: arg_cong2[where f=drop])

lemma addMessage_isActive:
  "isActive (state (addMessage cfg r c md t1 t2 m)) = isActive (state m)"
  by (simp add: addMessage_def resetSilenceTimer_def Let_def)

lemma addMessages_isActive:
  "isActive (state (addMessages cfg calls m)) = isActive (state m)"
  by (induction cfg calls m rule: addMessages.induct) (auto simp: addMessage_isActive)

lemma addMessages_snoc:
  "addMessages cfg (calls @ [(r, c, md, t1, t2)]) m =
     addMessage cfg r c md t1 t2 (addMessages cfg calls m)"
  by (induction cfg calls m rule: addMessages.induct) auto

lemma addMessage_pushed:
  assumes "isActive (state m)"
  shows "messages (state (addMessage cfg r c md t1 t2 m)) =
     (let pushed = messages (state m) @ [built cfg (r, c, md, t1, t2)]
      in if maxMessages cfg < length pushed
         then slice_from (- int (maxMessages cfg)) pushed else pushed)"
  using assms by (simp add: addMessage_def resetSilenceTimer_def Let_def)

lemma addMessage_keeps_most_recent:
  assumes "isActive (state m)" "0 < maxMessages cfg"
  shows "messages (state (addMessage cfg r c md t1 t2 m)) =
     (let pushed = messages (state m) @ [built cfg (r, c, md, t1, t2)]
      in drop (length pushed - maxMessages cfg) pushed)"
  using assms by (simp add: addMessage_pushed Let_def slice_from_neg del: built.simps)

lemma drop_most_recent_snoc:
  "0 < n \<Longrightarrow>
   drop (length (drop (length xs - n) xs @ [y]) - n) (drop (length xs - n) xs @ [y]) =
   drop (length (xs @ [y]) - n) (xs @ [y])"
  by (cases "length xs < n") (auto simp: Suc_diff_le)

text \<open>
  With a limit of at least one message, a run of \<open>addMessage\<close> calls on an active
  conversation leaves the most recent \<open>maxMessages\<close> messages, in arrival order.
\<close>

lemma addMessages_keeps_most_recent:
  assumes "isActive (state m)" "0 < maxMessages cfg" "calls \<noteq> []"
  shows "messages (state (addMessages cfg calls m)) =
     (let every = messages (state m) @ map (built cfg) calls
      in drop (length every - maxMessages cfg) every)"
  using assms
proof (induction calls rule: rev_induct)
  case Nil
  then show ?case by simp
next
  case (snoc a calls)
  obtain r c md t1 t2 where a: "a = (r, c, md, t1, t2)" by (cases a) auto
  have act: "isActive (state (addMessages cfg calls m))"
    using snoc.prems(1) by (simp add: addMessages_isActive)
  show ?case
  proof (cases "calls = []")
    case True
    then show ?thesis using snoc.prems a by (simp add: addMessage_keeps_most_recent)
  next
    case False
    then have ih: "messages (state (addMessages cfg calls m)) =
      drop (length (messages (state m) @ map (built cfg) calls) - maxMessages cfg)
           (messages (state m) @ map (built cfg) calls)"
      using snoc by (simp add: Let_def)
    show ?thesis
      unfolding a addMessages_snoc
      using drop_most_recent_snoc[OF snoc.prems(2),
          of "messages (state m) @ map (built cfg) calls" "built cfg (r, c, md, t1, t2)"]
      by (simp add: addMessage_keeps_most_recent[OF act snoc.prems(2)] ih Let_def del: built.simps)
  qed
qed

text \<open>
  The example of the specification: with a limit of 10, after 15 messages numbered 1 to
  15 the history holds messages 6 to 15.
\<close>

lemma ten_of_fifteen:
  assumes "maxMessages cfg = 10"
  shows "messages (state (addMessages cfg (map numbered_call [1..<16])
                     (start cfg newId now m))) =
         map (built cfg \<circ> numbered_call) [6..<16]"
proof -
  have act: "isActive (state (start cfg newId now m))"
    and none: "messages (state (start cfg newId now m)) = []"
    by (simp_all add: start_def resetSilenceTimer_def createNewConversation_def)
  have "messages (state (addMessages cfg (map numbered_call [1..<16]) (start cfg newId now m))) =
      drop 5 (map (built cfg) (map numbered_call [1..<16]))"
    using addMessages_keeps_most_recent[OF act, of cfg "map numbered_call [1..<16]"] assms
    by (simp add: none Let_def)
  also have "\<dots> = map (built cfg \<circ> numbered_call) (drop 5 [1..<16])"
    by (simp only: drop_map map_map)
  also have "drop 5 [1..<16] = [6..<16]"
    by (simp only: drop_upt) simp
  finally show ?thesis .
qed

text \<open>With a limit of 0 the history is never trimmed: \<open>slice(-0)\<close> is the whole array.\<close>

lemma addMessages_zero_limit:
  assumes "isActive (state m)" "maxMessages cfg = 0"
  shows "messages (state (addMessages cfg calls m)) = messages (state m) @ map (built cfg) calls"
  using assms
proof (induction calls rule: rev_induct)
  case Nil
  then show ?case by simp
next
  case (snoc a calls)
  obtain r c md t1 t2 where a: "a = (r, c, md, t1, t2)" by (cases a) auto
  have act: "isActive (state (addMessages cfg calls m))"
    using snoc.prems(1) by (simp add: addMessages_isActive)
  show ?case
    unfolding a addMessages_snoc
    using snoc by (simp add: addMessage_pushed[OF act] slice_from_zero del: built.simps)
qed

text \<open>
  C2. The claim: after appending more than \<open>maxMessages\<close> messages the history holds
  exactly the most recent \<open>maxMessages\<close>. The code trims with
  \<open>slice(-maxMessages)\<close>, and for \<open>maxMessages = 0\<close> that is \<open>slice(0)\<close>: after one
  message on a fresh conversation with limit 0 the history holds that message, not the
  most recent 0 messages. (For a limit of at least 1 the claim holds:
  \<open>addMessages_keeps_most_recent\<close>, \<open>ten_of_fifteen\<close>.)
\<close>

theorem C2_zero_limit_retains_message:
  "maxMessages zero_limit_config = 0 \<and>
   getMessages (addMessages zero_limit_config [(RoleUser, str ''a'', None, 1, 1)]
     (start zero_limit_config (str ''conv-1'') 0 (new_manager (str ''conv-0'') 0))) =
   [\<lparr>role = RoleUser, content = str ''a'', timestamp = Some 1, msg_metadata = None\<rparr>]"
proof -
  have act: "isActive (state (start zero_limit_config (str ''conv-1'') 0 (new_manager (str ''conv-0'') 0)))"
    by (simp add: start_def resetSilenceTimer_def createNewConversation_def)
  have lim: "maxMessages zero_limit_config = 0"
    by (simp add: zero_limit_config_def)
  show ?thesis
    using addMessages_zero_limit[OF act lim, of "[(RoleUser, str ''a'', None, 1, 1)]"]
    by (simp add: getMessages_def lim start_def resetSilenceTimer_def createNewConversation_def)
qed

lemma last_slice_from_pushed:
  "last (if n < length (xs @ [y]) then slice_from (- int n) (xs @ [y]) else xs @ [y]) = y \<and>
   (if n < length (xs @ [y]) then slice_from (- int n) (xs @ [y]) else xs @ [y]) \<noteq> []"
proof (cases "n = 0")
  case True
  then show ?thesis by (simp add: slice_from_zero)
next
  case False
  define zs where "zs = xs @ [y]"
  have zs: "zs \<noteq> []" "last zs = y" by (simp_all add: zs_def)
  have n: "0 < n" using False by simp
  have "last (drop (length zs - n) zs) = y \<and> drop (length zs - n) zs \<noteq> []"
    if "n < length zs"
    using that n zs by (simp add: last_drop)
  then show ?thesis
    using zs n unfolding zs_def[symmetric] by (simp add: slice_from_neg)
qed

lemma addMessage_last:
  assumes "isActive (state m)"
  shows "messages (state (addMessage cfg r c md t1 t2 m)) \<noteq> [] \<and>
         last (messages (state (addMessage cfg r c md t1 t2 m))) = built cfg (r, c, md, t1, t2)"
  using last_slice_from_pushed[of "maxMessages cfg" "messages (state m)" "built cfg (r, c, md, t1, t2)"]
  by (simp add: addMessage_pushed[OF assms] Let_def del: built.simps length_append)

text \<open>
  C6, as stated, fails: with \<open>enableMetadata\<close> switched off, a final segment is appended
  as a user message that carries no metadata at all.
\<close>

theorem C6_counterexample:
  "seg_isFinal sample_segment \<and>
   isActive (state (new_manager (str ''conv-0'') 0)) \<and>
   getMessages (addTranscript no_metadata_config sample_segment 1 1 (new_manager (str ''conv-0'') 0)) =
     [\<lparr>role = RoleUser, content = str ''I need help'', timestamp = Some 1, msg_metadata = None\<rparr>] \<and>
   msg_metadata (last (getMessages
        (addTranscript no_metadata_config sample_segment 1 1 (new_manager (str ''conv-0'') 0)))) \<noteq>
     Some (transcript_metadata sample_segment)"
  by (simp add: getMessages_def addTranscript_def addMessage_def resetSilenceTimer_def Let_def
      new_manager_def createNewConversation_def sample_segment_def no_metadata_config_def
      slice_from_def)

text \<open>
  C6, amended. For every transcript segment passed to \<open>addTranscript\<close> while the
  conversation is active: a non-final segment leaves \<open>getMessages()\<close> as it was; a final
  segment is appended as the last entry, a message with role user and the segment's
  text, which carries the segment's id, confidence and speaker as metadata when
  \<open>enableMetadata\<close> is on (the default) and no metadata when it is off.
\<close>

theorem C6_transcript_segments:
  assumes "isActive (state m)"
  shows "(\<not> seg_isFinal seg \<longrightarrow>
            getMessages (addTranscript cfg seg t1 t2 m) = getMessages m) \<and>
         (seg_isFinal seg \<longrightarrow>
            getMessages (addTranscript cfg seg t1 t2 m) \<noteq> [] \<and>
            last (getMessages (addTranscript cfg seg t1 t2 m)) =
              \<lparr>role = RoleUser, content = seg_text seg, timestamp = Some t1,
               msg_metadata = (if enableMetadata cfg then Some (transcript_metadata seg) else None)\<rparr>) \<and>
         transcript_metadata seg ''transcriptId'' = Some (JString (seg_id seg)) \<and>
         transcript_metadata seg ''confidence'' =
           Some (case seg_confidence seg of None \<Rightarrow> JUndefined | Some q \<Rightarrow> JNumber q) \<and>
         transcript_metadata seg ''speaker'' =
           Some (case seg_speaker seg of None \<Rightarrow> JUndefined | Some s \<Rightarrow> JString s)"
proof -
  have interim: "\<not> seg_isFinal seg \<Longrightarrow>
      getMessages (addTranscript cfg seg t1 t2 m) = getMessages m"
    using assms by (simp add: addTranscript_def getMessages_def)
  have final: "seg_isFinal seg \<Longrightarrow>
      getMessages (addTranscript cfg seg t1 t2 m) =
      messages (state (addMessage cfg RoleUser (seg_text seg) (Some (transcript_metadata seg)) t1 t2 m))"
    using assms by (simp add: addTranscript_def getMessages_def Let_def)
  have meta: "transcript_metadata seg ''transcriptId'' = Some (JString (seg_id seg))"
    "transcript_metadata seg ''confidence'' =
       Some (case seg_confidence seg of None \<Rightarrow> JUndefined | Some q \<Rightarrow> JNumber q)"
    "transcript_metadata seg ''speaker'' =
       Some (case seg_speaker seg of None \<Rightarrow> JUndefined | Some s \<Rightarrow> JString s)"
    by (simp_all add: transcript_metadata_def)
  show ?thesis
    using interim final meta
      addMessage_last[OF assms, of cfg RoleUser "seg_text seg" "Some (transcript_metadata seg)" t1 t2]
    by simp
qed

theorem C6_transcript_segments_witness:
  "isActive (state (new_manager (str ''conv-0'') 0)) \<and>
   getMessages (addTranscript default_manager_config (sample_segment\<lparr>seg_isFinal := False\<rparr>) 1 1
      (new_manager (str ''conv-0'') 0)) = [] \<and>
   last (getMessages (addTranscript default_manager_config sample_segment 1 1
      (new_manager (str ''conv-0'') 0))) =
     \<lparr>role = RoleUser, content = str ''I need help'', timestamp = Some 1,
      msg_metadata = Some (transcript_metadata sample_segment)\<rparr> \<and>
   transcript_metadata sample_segment ''transcriptId'' = Some (JString (str ''seg-1''))"
proof -
  have act: "isActive (state (new_manager (str ''conv-0'') 0))"
    by (simp add: new_manager_def createNewConversation_def)
  have none: "getMessages (new_manager (str ''conv-0'') 0) = []"
    by (simp add: getMessages_def new_manager_def createNewConversation_def)
  show ?thesis
    using act none
      C6_transcript_segments[OF act, of "sample_segment\<lparr>seg_isFinal := False\<rparr>" default_manager_config 1 1]
      C6_transcript_segments[OF act, of sample_segment default_manager_config 1 1]
    by (simp add: sample_segment_def default_manager_config_def)
qed

lemma addMessage_inactive:
  assumes "\<not> isActive (state m)"
  shows "addMessage cfg r c md t1 t2 m = m\<lparr>logged := logged m @ [WarnInactive]\<rparr>"
  using assms by (simp add: addMessage_def)

text \<open>
  C7. After \<open>end()\<close> the conversation is inactive, and on an inactive conversation a run
  of \<open>addMessage\<close> calls, whatever their role, content and metadata, leaves the state
  (so the history and the message count), the emitted events and the timer as they
  were; each call only logs a warning, and none throws (the model has no error result).
\<close>

theorem C7_addMessage_after_end:
  assumes "\<not> isActive (state m)"
  shows "\<not> isActive (state (end_conversation m0)) \<and>
         state (addMessages cfg calls m) = state m \<and>
         getMessages (addMessages cfg calls m) = getMessages m \<and>
         length (getMessages (addMessages cfg calls m)) = length (getMessages m) \<and>
         emitted (addMessages cfg calls m) = emitted m \<and>
         silenceTimer (addMessages cfg calls m) = silenceTimer m \<and>
         logged (addMessages cfg calls m) = logged m @ replicate (length calls) WarnInactive"
proof -
  have ended: "\<not> isActive (state (end_conversation m0))"
    by (simp add: end_conversation_def clearSilenceTimer_def Let_def)
  have run: "addMessages cfg calls m =
      m\<lparr>logged := logged m @ replicate (length calls) WarnInactive\<rparr>"
    using assms
  proof (induction calls rule: rev_induct)
    case Nil
    then show ?case by simp
  next
    case (snoc a calls)
    obtain r c md t1 t2 where a: "a = (r, c, md, t1, t2)" by (cases a) auto
    have "\<not> isActive (state (addMessages cfg calls m))"
      using snoc.prems by (simp add: addMessages_isActive)
    then show ?case
      unfolding a addMessages_snoc
      using snoc by (simp add: addMessage_inactive replicate_append_same)
  qed
  show ?thesis using ended by (simp add: run getMessages_def)
qed

theorem C7_addMessage_after_end_witness:
  "\<not> isActive (state (end_conversation (new_manager (str ''conv-0'') 0))) \<and>
   getMessages (addMessages default_manager_config [(RoleUser, str ''Should be ignored'', None, 1, 1)]
      (end_conversation (new_manager (str ''conv-0'') 0))) = [] \<and>
   emitted (addMessages default_manager_config [(RoleUser, str ''Should be ignored'', None, 1, 1)]
      (end_conversation (new_manager (str ''conv-0'') 0))) = [EvEnded (str ''conv-0'')]"
proof -
  have ended: "\<not> isActive (state (end_conversation (new_manager (str ''conv-0'') 0)))"
    by (simp add: end_conversation_def clearSilenceTimer_def Let_def)
  show ?thesis
    using ended C7_addMessage_after_end[OF ended,
        of "new_manager (str ''conv-0'') 0" default_manager_config
           "[(RoleUser, str ''Should be ignored'', None, 1, 1)]"]
    by (simp add: getMessages_def end_conversation_def clearSilenceTimer_def Let_def
        new_manager_def createNewConversation_def)
qed

text \<open>
  C10. \<open>getLastMessages(0)\<close> returns the whole history (\<open>slice(-0)\<close> is \<open>slice(0)\<close>), and
  for every count of at least 1 the call returns the last \<open>min(count, length)\<close> messages
  in order.
\<close>

theorem C10_getLastMessages:
  "getLastMessages 0 m = messages (state m) \<and>
   (1 \<le> count \<longrightarrow>
      getLastMessages count m =
        drop (length (messages (state m)) - nat count) (messages (state m)) \<and>
      length (getLastMessages count m) = min (nat count) (length (messages (state m))))"
proof -
  have zero: "getLastMessages 0 m = messages (state m)"
    by (simp add: getLastMessages_def slice_from_zero)
  have pos: "getLastMessages count m =
        drop (length (messages (state m)) - nat count) (messages (state m))" if "1 \<le> count"
  proof -
    have "0 < nat count" and "- count = - int (nat count)" using that by simp_all
    then show ?thesis
      unfolding getLastMessages_def by (simp only: slice_from_neg)
  qed
  show ?thesis using zero pos by auto
qed

theorem C10_getLastMessages_witness:
  "(1::int) \<le> 2 \<and>
   getLastMessages 0 three_messages = messages (state three_messages) \<and>
   length (messages (state three_messages)) = 3 \<and>
   getLastMessages 2 three_messages = drop 1 (messages (state three_messages)) \<and>
   length (getLastMessages 2 three_messages) = 2"
proof -
  have act: "isActive (state (new_manager (str ''conv-0'') 0))"
    and none: "messages (state (new_manager (str ''conv-0'') 0)) = []"
    by (simp_all add: new_manager_def createNewConversation_def)
  have "messages (state three_messages) = map (built default_manager_config) (map numbered_call [1..<4])"
    unfolding three_messages_def
    using addMessages_keeps_most_recent[OF act, of default_manager_config "map numbered_call [1..<4]"]
    by (simp add: none default_manager_config_def Let_def del: built.simps)
  then have len: "length (messages (state three_messages)) = 3" by simp
  show ?thesis
    using C10_getLastMessages[of three_messages 2] len by simp
qed

section \<open>Properties of AudioPipeline\<close>

lemma foldl_chunk_lengths:
  "foldl (\<lambda>sum chunk. sum + length chunk) n cs = n + length (concat cs)"
  by (induction cs arbitrary: n) auto

text \<open>The copy loop never throws and builds the concatenation.\<close>

lemma copy_chunks_concat:
  "offset + length (concat cs) \<le> length combined \<Longrightarrow>
   copy_chunks cs combined offset =
     Inr (take offset combined @ concat cs @ drop (offset + length (concat cs)) combined)"
proof (induction cs arbitrary: combined offset)
  case Nil
  then show ?case by simp
next
  case (Cons c cs)
  let ?combined' = "take offset combined @ c @ drop (offset + length c) combined"
  have fits: "\<not> length combined < offset + length c" using Cons.prems by simp
  have len: "length ?combined' = length combined" using Cons.prems by simp
  have step: "typed_set combined c offset = Inr ?combined'"
    using fits by (simp add: typed_set_def)
  have rec: "copy_chunks cs ?combined' (offset + length c) =
      Inr (take (offset + length c) ?combined' @ concat cs @
           drop (offset + length c + length (concat cs)) ?combined')"
    by (rule Cons.IH) (use Cons.prems len in simp)
  have tk: "take (offset + length c) ?combined' = take offset combined @ c"
    using Cons.prems by simp
  have dr: "drop (offset + length c + length (concat cs)) ?combined' =
      drop (offset + length c + length (concat cs)) combined"
    using Cons.prems by (simp add: ac_simps)
  have "copy_chunks (c # cs) combined offset = copy_chunks cs ?combined' (offset + length c)"
    by (simp only: copy_chunks.simps step sum.case)
  also have "\<dots> = Inr ((take offset combined @ c) @ concat cs @
           drop (offset + length c + length (concat cs)) combined)"
    by (simp only: rec tk dr)
  also have "\<dots> = Inr (take offset combined @ concat (c # cs) @
           drop (offset + length (concat (c # cs))) combined)"
    by (simp add: add.assoc)
  finally show ?case .
qed

lemma flushBuffer_nonempty:
  assumes "audioBuffer p \<noteq> []"
  shows "flushBuffer p =
     Inr (Some (concat (audioBuffer p)),
          p\<lparr>audioBuffer := [], sampleCount := 0,
            p_emitted := p_emitted p @ [EvBuffer (concat (audioBuffer p))]\<rparr>)"
proof -
  have "copy_chunks (audioBuffer p) (replicate (length (concat (audioBuffer p))) 0) 0 =
      Inr (concat (audioBuffer p))"
    using copy_chunks_concat[of 0 "audioBuffer p" "replicate (length (concat (audioBuffer p))) 0"]
    by simp
  then show ?thesis using assms
    by (simp add: flushBuffer_def foldl_chunk_lengths)
qed

lemma flushBuffer_empty: "audioBuffer p = [] \<Longrightarrow> flushBuffer p = Inr (None, p)"
  by (simp add: flushBuffer_def)

lemma processAudioChunk_streaming:
  assumes "isStreaming p"
  shows "\<exists>p'. processAudioChunk cfg chunk p = Inr p' \<and> isStreaming p' \<and>
     (if flushDue cfg (sampleCount p + length chunk)
      then audioBuffer p' = [] \<and> sampleCount p' = 0
      else audioBuffer p' = audioBuffer p @ [chunk] \<and> sampleCount p' = sampleCount p + length chunk)"
proof -
  define p1 where "p1 = p\<lparr>audioBuffer := audioBuffer p @ [chunk],
                   sampleCount := sampleCount p + length chunk,
                   p_emitted := p_emitted p @ [EvChunk chunk]\<rparr>"
  have ne: "audioBuffer p1 \<noteq> []" by (simp add: p1_def)
  have cnt: "sampleCount p1 = sampleCount p + length chunk" by (simp add: p1_def)
  have unfolded: "processAudioChunk cfg chunk p =
      (if flushDue cfg (sampleCount p1)
       then (case flushBuffer p1 of Inl e \<Rightarrow> Inl e | Inr (_, p2) \<Rightarrow> Inr p2)
       else Inr p1)"
    using assms by (simp add: processAudioChunk_def Let_def p1_def)
  show ?thesis
  proof (cases "flushDue cfg (sampleCount p + length chunk)")
    case True
    then show ?thesis
      using assms by (simp add: unfolded cnt flushBuffer_nonempty[OF ne]) (simp add: p1_def)
  next
    case False
    then show ?thesis
      using assms by (simp add: unfolded cnt) (simp add: p1_def)
  qed
qed

lemma processAudioChunks_held:
  assumes "isStreaming p"
  shows "\<exists>p1. processAudioChunks cfg chunks p = Inr p1 \<and> isStreaming p1 \<and>
     suffix (audioBuffer p1) (audioBuffer p @ chunks) \<and>
     ((\<forall>n \<in> set (running_counts (sampleCount p) chunks). \<not> flushDue cfg n) \<longrightarrow>
        audioBuffer p1 = audioBuffer p @ chunks)"
  using assms
proof (induction chunks arbitrary: p)
  case Nil
  then show ?case by simp
next
  case (Cons c cs)
  obtain p' where p': "processAudioChunk cfg c p = Inr p'" and str: "isStreaming p'"
    and buf: "if flushDue cfg (sampleCount p + length c)
      then audioBuffer p' = [] \<and> sampleCount p' = 0
      else audioBuffer p' = audioBuffer p @ [c] \<and> sampleCount p' = sampleCount p + length c"
    using processAudioChunk_streaming[OF Cons.prems, of cfg c] by (elim exE conjE)
  obtain p1 where p1: "processAudioChunks cfg cs p' = Inr p1" and str1: "isStreaming p1"
    and suf: "suffix (audioBuffer p1) (audioBuffer p' @ cs)"
    and keep: "(\<forall>n \<in> set (running_counts (sampleCount p') cs). \<not> flushDue cfg n) \<longrightarrow>
        audioBuffer p1 = audioBuffer p' @ cs"
    using Cons.IH[OF str] by (elim exE conjE)
  have run: "processAudioChunks cfg (c # cs) p = Inr p1" using p' p1 by simp
  show ?case
  proof (cases "flushDue cfg (sampleCount p + length c)")
    case True
    then have b: "audioBuffer p' = []" using buf by simp
    have "suffix (audioBuffer p1) ((audioBuffer p @ [c]) @ cs)"
      using suf b by (simp only: append_Nil suffix_appendI)
    then have "suffix (audioBuffer p1) (audioBuffer p @ c # cs)" by simp
    moreover have "(\<forall>n \<in> set (running_counts (sampleCount p) (c # cs)). \<not> flushDue cfg n) \<longrightarrow>
        audioBuffer p1 = audioBuffer p @ c # cs"
      using True by simp
    ultimately show ?thesis using run str1 by blast
  next
    case False
    then have b: "audioBuffer p' = audioBuffer p @ [c]"
      and n: "sampleCount p' = sampleCount p + length c" using buf by simp_all
    have "suffix (audioBuffer p1) (audioBuffer p @ c # cs)" using b suf by simp
    moreover have "(\<forall>n \<in> set (running_counts (sampleCount p) (c # cs)). \<not> flushDue cfg n) \<longrightarrow>
        audioBuffer p1 = audioBuffer p @ c # cs"
      using keep b n by simp
    ultimately show ?thesis using run str1 by blast
  qed
qed


text \<open>
  C1. While the pipeline is streaming, a run of \<open>processAudioChunk\<close> calls does not throw
  and leaves in the buffer a suffix of the chunks passed (all of them, in arrival order,
  when no automatic flush came due in between); \<open>flushBuffer()\<close> then returns exactly the
  concatenation of the chunks held, and clears the buffer; on an empty buffer, so also
  right after a flush, it returns null.
\<close>

theorem C1_flushBuffer:
  assumes "isStreaming p"
  shows "\<exists>p1 p2. processAudioChunks cfg chunks p = Inr p1 \<and>
     suffix (audioBuffer p1) (audioBuffer p @ chunks) \<and>
     ((\<forall>n \<in> set (running_counts (sampleCount p) chunks). \<not> flushDue cfg n) \<longrightarrow>
        audioBuffer p1 = audioBuffer p @ chunks) \<and>
     flushBuffer p1 =
       Inr (if audioBuffer p1 = [] then None else Some (concat (audioBuffer p1)), p2) \<and>
     audioBuffer p2 = [] \<and>
     flushBuffer p2 = Inr (None, p2)"
proof -
  obtain p1 where run: "processAudioChunks cfg chunks p = Inr p1"
    and suf: "suffix (audioBuffer p1) (audioBuffer p @ chunks)"
    and keep: "(\<forall>n \<in> set (running_counts (sampleCount p) chunks). \<not> flushDue cfg n) \<longrightarrow>
        audioBuffer p1 = audioBuffer p @ chunks"
    using processAudioChunks_held[OF assms, of cfg chunks] by (elim exE conjE)
  define p2 where "p2 = (if audioBuffer p1 = [] then p1
     else p1\<lparr>audioBuffer := [], sampleCount := 0,
            p_emitted := p_emitted p1 @ [EvBuffer (concat (audioBuffer p1))]\<rparr>)"
  have fl: "flushBuffer p1 =
       Inr (if audioBuffer p1 = [] then None else Some (concat (audioBuffer p1)), p2)"
    by (simp add: p2_def flushBuffer_empty flushBuffer_nonempty)
  have empty: "audioBuffer p2 = []" by (simp add: p2_def)
  have again: "flushBuffer p2 = Inr (None, p2)" by (rule flushBuffer_empty[OF empty])
  show ?thesis using run suf keep fl empty again by blast
qed

theorem C1_flushBuffer_witness:
  "isStreaming (start_pipeline new_pipeline) \<and>
   (\<exists>p1 p2. processAudioChunks sample_pipeline_config [[1, 2, 3], [4, 5, 6]]
               (start_pipeline new_pipeline) = Inr p1 \<and>
            flushBuffer p1 = Inr (Some [1, 2, 3, 4, 5, 6], p2) \<and>
            flushBuffer p2 = Inr (None, p2))"
proof -
  have str: "isStreaming (start_pipeline new_pipeline)"
    and buf: "audioBuffer (start_pipeline new_pipeline) = []"
    and cnt: "sampleCount (start_pipeline new_pipeline) = 0"
    by (simp_all add: start_pipeline_def new_pipeline_def)
  obtain p1 p2 where run: "processAudioChunks sample_pipeline_config [[1, 2, 3], [4, 5, 6]]
               (start_pipeline new_pipeline) = Inr p1"
    and keep: "(\<forall>n \<in> set (running_counts (sampleCount (start_pipeline new_pipeline))
                  [[1, 2, 3], [4, 5, 6 :: byte]]). \<not> flushDue sample_pipeline_config n) \<longrightarrow>
        audioBuffer p1 = audioBuffer (start_pipeline new_pipeline) @ [[1, 2, 3], [4, 5, 6]]"
    and fl: "flushBuffer p1 =
       Inr (if audioBuffer p1 = [] then None else Some (concat (audioBuffer p1)), p2)"
    and again: "flushBuffer p2 = Inr (None, p2)"
    using C1_flushBuffer[OF str, of sample_pipeline_config "[[1, 2, 3], [4, 5, 6]]"]
    by (elim exE conjE)
  have held: "audioBuffer p1 = [[1, 2, 3], [4, 5, 6]]"
    using keep by (simp add: cnt buf sample_pipeline_config_def)
  have "flushBuffer p1 = Inr (Some [1, 2, 3, 4, 5, 6], p2)"
    using fl by (simp add: held)
  then show ?thesis using str run again by blast
qed

section \<open>Properties of the reconnection policy\<close>

text \<open>With no listener for \<open>error\<close>, \<open>handleError\<close> logs, throws the error and does no more.\<close>

lemma handleError_no_listener:
  assumes "errorListeners a = 0"
  shows "handleError e ctx hooks a = (Some e, a\<lparr>a_logged := a_logged a @ [LogError ctx e]\<rparr>)"
  using assms by (simp add: handleError_def Let_def)

text \<open>With a listener, and hooks that return, it returns and applies the policy.\<close>

lemma handleError_policy:
  assumes "0 < errorListeners a"
  shows "fst (handleError e ctx ErrorHooksReturn a) = None"
    "isConnected (snd (handleError e ctx ErrorHooksReturn a)) = isConnected a"
    "errorListeners (snd (handleError e ctx ErrorHooksReturn a)) = errorListeners a"
    "maxReconnectAttempts (snd (handleError e ctx ErrorHooksReturn a)) = maxReconnectAttempts a"
    "reconnectDelay (snd (handleError e ctx ErrorHooksReturn a)) = reconnectDelay a"
    "reconnectAttempts (snd (handleError e ctx ErrorHooksReturn a)) =
       (if isConnected a \<and> reconnectAttempts a < maxReconnectAttempts a
        then Suc (reconnectAttempts a) else reconnectAttempts a)"
    "scheduled (snd (handleError e ctx ErrorHooksReturn a)) =
       (if isConnected a \<and> reconnectAttempts a < maxReconnectAttempts a
        then scheduled a @ [reconnectDelay a * Suc (reconnectAttempts a)] else scheduled a)"
  using assms by (simp_all add: handleError_def Let_def)

text \<open>Whatever the hooks do, an agent that is not marked connected schedules nothing.\<close>

lemma handleError_not_connected:
  assumes "\<not> isConnected a"
  shows "scheduled (snd (handleError e ctx hooks a)) = scheduled a"
    "reconnectAttempts (snd (handleError e ctx hooks a)) = reconnectAttempts a"
    "isConnected (snd (handleError e ctx hooks a)) = isConnected a"
  using assms by (simp_all add: handleError_def Let_def split: error_hooks.splits)

lemma connect_try_rejected:
  "connect_try cfg (InitializeRejects e) hooks newId now t1 t2 a =
     Inl (e, a\<lparr>a_logged := a_logged a @ [LogInitializing]\<rparr>)"
  "connect_try cfg (ConnectRejects e) hooks newId now t1 t2 a =
     Inl (e, a\<lparr>a_logged := a_logged a @ [LogInitializing, LogConnecting]\<rparr>)"
  by (simp_all add: connect_try_def)

text \<open>A failed reconnection changes the policy's fields as \<open>handleError\<close> does.\<close>

lemma after_failure_policy:
  assumes "0 < errorListeners a"
  shows "isConnected (after_failure cfg f a) = isConnected a"
    "errorListeners (after_failure cfg f a) = errorListeners a"
    "maxReconnectAttempts (after_failure cfg f a) = maxReconnectAttempts a"
    "reconnectDelay (after_failure cfg f a) = reconnectDelay a"
    "reconnectAttempts (after_failure cfg f a) =
       (if isConnected a \<and> reconnectAttempts a < maxReconnectAttempts a
        then Suc (reconnectAttempts a) else reconnectAttempts a)"
    "scheduled (after_failure cfg f a) =
       (if isConnected a \<and> reconnectAttempts a < maxReconnectAttempts a
        then scheduled a @ [reconnectDelay a * Suc (reconnectAttempts a)] else scheduled a)"
proof -
  have rc: "reconnect_callback cfg outcome ConnectHooksReturn ErrorHooksReturn [] 0 0 0 a =
      (let b = snd (handleError e ''connect'' ErrorHooksReturn a')
       in b\<lparr>a_logged := a_logged b @ [LogReconnectionFailed e]\<rparr>)"
    if "connect_try cfg outcome ConnectHooksReturn [] 0 0 0 a = Inl (e, a')"
      and "0 < errorListeners a'" for outcome e a'
    using that handleError_policy(1)[OF that(2), of e "''connect''"]
    by (cases "handleError e ''connect'' ErrorHooksReturn a'")
       (simp add: reconnect_callback_def connect_def Let_def)
  show "isConnected (after_failure cfg f a) = isConnected a"
    "errorListeners (after_failure cfg f a) = errorListeners a"
    "maxReconnectAttempts (after_failure cfg f a) = maxReconnectAttempts a"
    "reconnectDelay (after_failure cfg f a) = reconnectDelay a"
    "reconnectAttempts (after_failure cfg f a) =
       (if isConnected a \<and> reconnectAttempts a < maxReconnectAttempts a
        then Suc (reconnectAttempts a) else reconnectAttempts a)"
    "scheduled (after_failure cfg f a) =
       (if isConnected a \<and> reconnectAttempts a < maxReconnectAttempts a
        then scheduled a @ [reconnectDelay a * Suc (reconnectAttempts a)] else scheduled a)"
    using assms
    by (cases f; simp add: rc[OF connect_try_rejected(1)] rc[OF connect_try_rejected(2)]
          handleError_policy Let_def)+
qed

lemma after_failures_policy:
  assumes "isConnected a" "0 < errorListeners a"
  shows "isConnected (after_failures cfg fs a) \<and>
     errorListeners (after_failures cfg fs a) = errorListeners a \<and>
     maxReconnectAttempts (after_failures cfg fs a) = maxReconnectAttempts a \<and>
     reconnectDelay (after_failures cfg fs a) = reconnectDelay a \<and>
     reconnectAttempts (after_failures cfg fs a) =
       max (reconnectAttempts a) (min (reconnectAttempts a + length fs) (maxReconnectAttempts a)) \<and>
     scheduled (after_failures cfg fs a) =
       scheduled a @ map (\<lambda>k. reconnectDelay a * k)
         [Suc (reconnectAttempts a) ..<
          Suc (min (reconnectAttempts a + length fs) (maxReconnectAttempts a))]"
  using assms
proof (induction fs arbitrary: a)
  case Nil
  then show ?case by simp
next
  case (Cons f fs)
  define b where "b = after_failure cfg f a"
  define n where "n = reconnectAttempts a"
  define mx where "mx = maxReconnectAttempts a"
  define d where "d = reconnectDelay a"
  define l where "l = errorListeners a"
  have con: "isConnected b" and bl: "0 < errorListeners b"
    and bmx: "maxReconnectAttempts b = mx" and bd: "reconnectDelay b = d"
    and bls: "errorListeners b = l"
    using Cons.prems by (simp_all add: b_def mx_def d_def l_def after_failure_policy)
  have step: "after_failures cfg (f # fs) a = after_failures cfg fs b"
    by (simp add: b_def)
  have ih: "isConnected (after_failures cfg fs b)"
    "errorListeners (after_failures cfg fs b) = l"
    "maxReconnectAttempts (after_failures cfg fs b) = mx"
    "reconnectDelay (after_failures cfg fs b) = d"
    "reconnectAttempts (after_failures cfg fs b) =
       max (reconnectAttempts b) (min (reconnectAttempts b + length fs) mx)"
    "scheduled (after_failures cfg fs b) =
       scheduled b @ map (\<lambda>k. d * k)
         [Suc (reconnectAttempts b) ..< Suc (min (reconnectAttempts b + length fs) mx)]"
    using Cons.IH[OF con bl] by (simp_all only: bmx bd bls)
  show ?case
  proof (cases "n < mx")
    case True
    then have att: "reconnectAttempts b = Suc n"
      and sch: "scheduled b = scheduled a @ [d * Suc n]"
      using Cons.prems by (simp_all add: b_def n_def mx_def d_def after_failure_policy)
    have up: "[Suc n ..< Suc (min (n + length (f # fs)) mx)] =
        Suc n # [Suc (Suc n) ..< Suc (min (Suc n + length fs) mx)]"
      using True by (subst upt_conv_Cons) (simp_all del: upt_Suc)
    have m: "max (Suc n) (min (Suc n + length fs) mx) = max n (min (n + length (f # fs)) mx)"
      using True by (simp add: max_def min_def)
    have "reconnectAttempts (after_failures cfg fs b) = max n (min (n + length (f # fs)) mx)"
      by (simp only: ih att m)
    moreover have "scheduled (after_failures cfg fs b) =
        scheduled a @ map (\<lambda>k. d * k) [Suc n ..< Suc (min (n + length (f # fs)) mx)]"
      by (simp only: ih att sch up append_assoc list.map append_Cons append_Nil)
    ultimately show ?thesis
      unfolding step using ih(1,2,3,4) by (simp only: n_def mx_def d_def l_def)
  next
    case False
    then have att: "reconnectAttempts b = n" and sch: "scheduled b = scheduled a"
      using Cons.prems by (simp_all add: b_def n_def mx_def after_failure_policy)
    have none: "[Suc n ..< Suc (min (n + length (f # fs)) mx)] = []"
      "[Suc n ..< Suc (min (n + length fs) mx)] = []"
      using False by (auto simp del: upt_Suc)
    have "max n (min (n + k) mx) = max n (min (n + Suc k) mx)" for k
      using False by arith
    then have m: "max n (min (n + length fs) mx) = max n (min (n + length (f # fs)) mx)"
      by simp
    have "reconnectAttempts (after_failures cfg fs b) = max n (min (n + length (f # fs)) mx)"
      by (simp only: ih att m)
    moreover have "scheduled (after_failures cfg fs b) =
        scheduled a @ map (\<lambda>k. d * k) [Suc n ..< Suc (min (n + length (f # fs)) mx)]"
      by (simp only: ih att sch none)
    ultimately show ?thesis
      unfolding step using ih(1,2,3,4) by (simp only: n_def mx_def d_def l_def)
  qed
qed

text \<open>
  What does hold of the policy. On an agent with a listener for \<open>error\<close>, and while the
  listeners and callbacks it runs return: the ceiling is 5 and the base delay 1000 by
  default; an error handled while the agent is marked connected and the counter is
  below the ceiling makes exactly one \<open>setTimeout\<close> call, with delay base times the
  attempt number; counting from a counter of 0, a run of failures schedules attempts 1
  to \<open>min(failures, ceiling)\<close>, and once the failures have reached the ceiling no failure
  that follows schedules anything. With or without a listener, a rejection of the
  provider's \<open>initialize()\<close> or \<open>connect()\<close> while the agent is not marked connected
  schedules nothing and rejects the promise of \<open>connect()\<close>.
\<close>

lemma reconnection_policy_with_listener:
  assumes "0 < errorListeners a"
  shows "maxReconnectAttempts (new_agent newId now) = 5 \<and>
   reconnectDelay (new_agent newId now) = 1000 \<and>
   (isConnected a \<and> reconnectAttempts a < maxReconnectAttempts a \<longrightarrow>
      handleError e ctx ErrorHooksReturn a =
        (None, snd (handleError e ctx ErrorHooksReturn a)) \<and>
      reconnectAttempts (snd (handleError e ctx ErrorHooksReturn a)) = reconnectAttempts a + 1 \<and>
      scheduled (snd (handleError e ctx ErrorHooksReturn a)) =
        scheduled a @ [reconnectDelay a * (reconnectAttempts a + 1)]) \<and>
   (isConnected a \<and> reconnectAttempts a = 0 \<longrightarrow>
      scheduled (after_failures cfg fs a) =
        scheduled a @ map (\<lambda>k. reconnectDelay a * k)
                        [1 ..< Suc (min (length fs) (maxReconnectAttempts a))]) \<and>
   (isConnected a \<and> reconnectAttempts a = 0 \<and> maxReconnectAttempts a \<le> length fs \<longrightarrow>
      scheduled (after_failures cfg later (after_failures cfg fs a)) =
        scheduled (after_failures cfg fs a))"
proof -
  have defaults: "maxReconnectAttempts (new_agent newId now) = 5"
    "reconnectDelay (new_agent newId now) = 1000"
    by (simp_all add: new_agent_def)
  have one: "handleError e ctx ErrorHooksReturn a =
        (None, snd (handleError e ctx ErrorHooksReturn a)) \<and>
      reconnectAttempts (snd (handleError e ctx ErrorHooksReturn a)) = reconnectAttempts a + 1 \<and>
      scheduled (snd (handleError e ctx ErrorHooksReturn a)) =
        scheduled a @ [reconnectDelay a * (reconnectAttempts a + 1)]"
    if "isConnected a \<and> reconnectAttempts a < maxReconnectAttempts a"
    using that handleError_policy[OF assms, of e ctx]
    by (cases "handleError e ctx ErrorHooksReturn a") simp
  have run: "scheduled (after_failures cfg fs a) =
        scheduled a @ map (\<lambda>k. reconnectDelay a * k)
                        [1 ..< Suc (min (length fs) (maxReconnectAttempts a))]"
    if "isConnected a \<and> reconnectAttempts a = 0"
    using that after_failures_policy[of a cfg fs] assms by simp
  have stop: "scheduled (after_failures cfg later (after_failures cfg fs a)) =
        scheduled (after_failures cfg fs a)"
    if h: "isConnected a \<and> reconnectAttempts a = 0 \<and> maxReconnectAttempts a \<le> length fs"
  proof -
    let ?b = "after_failures cfg fs a"
    have b: "isConnected ?b" "0 < errorListeners ?b"
      "maxReconnectAttempts ?b = maxReconnectAttempts a"
      "reconnectAttempts ?b = maxReconnectAttempts a"
      using h assms after_failures_policy[of a cfg fs] by (simp_all add: min_def)
    show ?thesis
      using after_failures_policy[OF b(1,2), of cfg later] b(3,4) by (simp add: min_def)
  qed
  show ?thesis using defaults one run stop by blast
qed

lemma first_connect_rejected:
  assumes "\<not> isConnected a" "outcome \<noteq> ProviderConnects"
  shows "fst (connect cfg outcome hooks ehooks newId now t1 t2 a) \<noteq> None \<and>
     scheduled (snd (connect cfg outcome hooks ehooks newId now t1 t2 a)) = scheduled a \<and>
     reconnectAttempts (snd (connect cfg outcome hooks ehooks newId now t1 t2 a)) =
       reconnectAttempts a \<and>
     \<not> isConnected (snd (connect cfg outcome hooks ehooks newId now t1 t2 a))"
proof -
  obtain e a' where t: "connect_try cfg outcome hooks newId now t1 t2 a = Inl (e, a')"
    and a': "\<not> isConnected a'" "scheduled a' = scheduled a"
      "reconnectAttempts a' = reconnectAttempts a"
    using assms by (cases outcome) (simp_all add: connect_try_rejected)
  obtain thrown b where h: "handleError e ''connect'' ehooks a' = (thrown, b)"
    by (cases "handleError e ''connect'' ehooks a'")
  have b: "scheduled b = scheduled a'" "reconnectAttempts b = reconnectAttempts a'"
    "isConnected b = isConnected a'"
    using handleError_not_connected[OF a'(1), of e "''connect''" ehooks] by (simp_all add: h)
  show ?thesis
    by (cases thrown) (simp_all add: connect_def t h b a')
qed

lemma listening_agent_eval:
  "isConnected listening_agent" "reconnectAttempts listening_agent = 0"
  "maxReconnectAttempts listening_agent = 5" "reconnectDelay listening_agent = 1000"
  "scheduled listening_agent = []" "errorListeners listening_agent = Suc 0"
  by (simp_all add: listening_agent_def connect_def connect_try_def on_error_def new_agent_def
      Let_def sample_agent_config_def str_def)

text \<open>
  On the agent with a listener: one error and six failed reconnections schedule the five
  attempts at 1000 to 5000 and no sixth.
\<close>

lemma listening_agent_gives_up:
  "scheduled (snd (handleError (str ''socket closed'') ''provider'' ErrorHooksReturn listening_agent)) =
     [1000] \<and>
   scheduled (after_failures sample_agent_config
      (ErrorHandled (str ''socket closed'') ''provider'' #
       replicate 6 (ReconnectConnectRejected (str ''refused''))) listening_agent) =
     [1000, 2000, 3000, 4000, 5000]"
proof -
  have l: "0 < errorListeners listening_agent" by (simp add: listening_agent_eval)
  have up: "[Suc 0..<6] = [1, 2, 3, 4, 5::nat]" by (simp add: upt_conv_Cons)
  show ?thesis
    using listening_agent_eval
      reconnection_policy_with_listener[OF l, where e = "str ''socket closed''"
        and ctx = "''provider''" and cfg = sample_agent_config
        and fs = "ErrorHandled (str ''socket closed'') ''provider'' #
           replicate 6 (ReconnectConnectRejected (str ''refused''))"
        and later = "[]"]
    by (simp add: up)
qed

lemma connected_agent_eval:
  "isConnected connected_agent" "reconnectAttempts connected_agent = 0"
  "maxReconnectAttempts connected_agent = 5" "reconnectDelay connected_agent = 1000"
  "scheduled connected_agent = []" "errorListeners connected_agent = 0"
  by (simp_all add: connected_agent_def connect_def connect_try_def new_agent_def
      Let_def sample_agent_config_def str_def)

text \<open>
  C8. The claim: every error handled while the agent is marked connected, with the
  counter below the ceiling, schedules exactly one reconnection; and an error during the
  first \<open>connect()\<close> schedules none. In the code \<open>handleError\<close> calls
  \<open>this.emit('error', ...)\<close> before it reaches \<open>onError\<close> and the reconnection, and the
  agent registers no listener for \<open>error\<close>: on an agent as constructed and connected, with
  the counter at 0 of 5, the emitter throws the error, \<open>onError\<close> is not called and nothing
  is scheduled. And \<open>connect()\<close> marks the agent connected before it runs \<open>onConnect\<close>:
  when that callback throws during the first \<open>connect()\<close> of an agent that does have a
  listener, the error reaches \<open>handleError\<close> with the agent marked connected, and a
  reconnection is scheduled at 1000. (What holds with a listener and returning hooks:
  \<open>reconnection_policy_with_listener\<close>, \<open>first_connect_rejected\<close>.)
\<close>

theorem C8_error_without_listener_schedules_nothing:
  "errorListeners (new_agent (str ''conv-0'') 0) = 0 \<and>
   errorListeners connected_agent = 0 \<and>
   isConnected connected_agent \<and>
   reconnectAttempts connected_agent = 0 \<and>
   maxReconnectAttempts connected_agent = 5 \<and>
   fst (handleError (str ''socket closed'') ''provider'' ErrorHooksReturn connected_agent) =
     Some (str ''socket closed'') \<and>
   scheduled (snd (handleError (str ''socket closed'') ''provider'' ErrorHooksReturn connected_agent)) = [] \<and>
   reconnectAttempts (snd (handleError (str ''socket closed'') ''provider'' ErrorHooksReturn
      connected_agent)) = 0 \<and>
   a_output (snd (handleError (str ''socket closed'') ''provider'' ErrorHooksReturn connected_agent)) =
     a_output connected_agent \<and>
   \<not> isConnected (on_error (new_agent (str ''conv-0'') 0)) \<and>
   fst (connect sample_agent_config ProviderConnects (OnConnectThrows (str ''callback failed''))
          ErrorHooksReturn (str ''conv-1'') 0 1 1 (on_error (new_agent (str ''conv-0'') 0))) =
     Some (str ''callback failed'') \<and>
   scheduled (snd (connect sample_agent_config ProviderConnects
          (OnConnectThrows (str ''callback failed'')) ErrorHooksReturn (str ''conv-1'') 0 1 1
          (on_error (new_agent (str ''conv-0'') 0)))) = [1000]"
proof -
  have n: "errorListeners (new_agent (str ''conv-0'') 0) = 0"
    "\<not> isConnected (on_error (new_agent (str ''conv-0'') 0))"
    by (simp_all add: new_agent_def on_error_def)
  have h: "handleError (str ''socket closed'') ''provider'' ErrorHooksReturn connected_agent =
      (Some (str ''socket closed''),
       connected_agent\<lparr>a_logged := a_logged connected_agent @
          [LogError ''provider'' (str ''socket closed'')]\<rparr>)"
    by (rule handleError_no_listener) (simp add: connected_agent_eval)
  have c: "connect sample_agent_config ProviderConnects (OnConnectThrows (str ''callback failed''))
          ErrorHooksReturn (str ''conv-1'') 0 1 1 (on_error (new_agent (str ''conv-0'') 0)) =
      (Some (str ''callback failed''),
       snd (connect sample_agent_config ProviderConnects (OnConnectThrows (str ''callback failed''))
          ErrorHooksReturn (str ''conv-1'') 0 1 1 (on_error (new_agent (str ''conv-0'') 0))))"
    "scheduled (snd (connect sample_agent_config ProviderConnects
          (OnConnectThrows (str ''callback failed'')) ErrorHooksReturn (str ''conv-1'') 0 1 1
          (on_error (new_agent (str ''conv-0'') 0)))) = [1000]"
    by (simp_all add: connect_def connect_try_def handleError_def on_error_def new_agent_def
        Let_def sample_agent_config_def str_def)
  have c1: "fst (connect sample_agent_config ProviderConnects (OnConnectThrows (str ''callback failed''))
          ErrorHooksReturn (str ''conv-1'') 0 1 1 (on_error (new_agent (str ''conv-0'') 0))) =
     Some (str ''callback failed'')"
    by (subst c(1)) simp
  show ?thesis
    using n c1 c(2) by (simp add: h connected_agent_eval)
qed

section \<open>What the getters share with their caller\<close>

lemma one_message_eval:
  "fst one_message =
     \<lparr>so_id = str ''conv-1'', so_messages = 0, so_isActive = True, so_startedAt = 0,
      so_lastActivityAt = 1, so_metadata = 1\<rparr>"
  "objs (snd one_message) 0 = Some (ArrayObj [2])"
  "objs (snd one_message) (Suc 0) = Some (RecordObj Map.empty)"
  "objs (snd one_message) 2 = Some (MessageObj hello)"
  "next_addr (snd one_message) = 3"
  by (simp_all add: one_message_def store_addMessage_def store_createNewConversation_def alloc_def
      empty_store_def elements_def default_manager_config_def hello_def Let_def)

lemma read_one_message:
  "read_messages (snd one_message) (so_messages (fst one_message)) = [hello]"
  by (simp add: read_messages_def elements_def one_message_eval List.map_filter_simps)

text \<open>
  A new array is a new address: pushing on the array \<open>getMessages()\<close> returned leaves the
  array of the state as it was.
\<close>

lemma getMessages_array_is_fresh:
  assumes "so_messages so < next_addr h" "store_getMessages so h = (arr, h1)"
  shows "elements (array_push arr x h1) (so_messages so) = elements h (so_messages so)"
  using assms by (auto simp: store_getMessages_def alloc_def array_push_def elements_def)

text \<open>
  C9. The claim: nothing the caller does through a value returned by \<open>getMessages()\<close>,
  \<open>getLastMessages(n)\<close> or \<open>getState()\<close> changes what the manager holds. The copies are
  shallow. On a conversation that holds the one message \<open>hello\<close>: a push on
  \<open>getState().messages\<close> adds a message to the manager's history; an assignment to a key
  of \<open>getState().metadata\<close> changes the manager's metadata; and an assignment to the
  \<open>content\<close> of the first element of \<open>getMessages()\<close>, or of \<open>getLastMessages(1)\<close>,
  changes the message the manager holds.
\<close>

theorem C9_getters_share_references:
  "(let (so, h) = one_message;
        returned = store_getState so;
        (x, h1) = alloc (MessageObj intruder) h;
        h2 = array_push (so_messages returned) x h1;
        h3 = assign_key (so_metadata returned) ''caller'' (JString (str ''x'')) h
    in read_messages h (so_messages so) = [hello] \<and>
       read_messages h2 (so_messages so) = [hello, intruder] \<and>
       read_record h (so_metadata so) = Map.empty \<and>
       read_record h3 (so_metadata so) = [''caller'' \<mapsto> JString (str ''x'')]) \<and>
   (let (so, h) = one_message;
        (arr, h1) = store_getMessages so h;
        h2 = assign_content (hd (elements h1 arr)) (str ''tampered'') h1
    in read_messages h2 (so_messages so) = [hello\<lparr>content := str ''tampered''\<rparr>]) \<and>
   (let (so, h) = one_message;
        (arr, h1) = store_getLastMessages 1 so h;
        h2 = assign_content (hd (elements h1 arr)) (str ''tampered'') h1
    in read_messages h2 (so_messages so) = [hello\<lparr>content := str ''tampered''\<rparr>])"
proof -
  obtain so h where sh: "one_message = (so, h)" by (cases one_message)
  have so: "so = \<lparr>so_id = str ''conv-1'', so_messages = 0, so_isActive = True, so_startedAt = 0,
      so_lastActivityAt = 1, so_metadata = 1\<rparr>"
    and h: "objs h 0 = Some (ArrayObj [2])" "objs h (Suc 0) = Some (RecordObj Map.empty)"
      "objs h 2 = Some (MessageObj hello)" "next_addr h = 3"
    using one_message_eval by (simp_all add: sh)
  show ?thesis
    unfolding sh
    by (simp add: so h store_getState_def store_getMessages_def store_getLastMessages_def
        alloc_def array_push_def assign_key_def assign_content_def read_messages_def
        read_record_def elements_def slice_from_def List.map_filter_simps Let_def)
qed

section \<open>Properties of LeadExtractor\<close>

subsection \<open>What a match of a pattern looks like\<close>

lemma rep_ends_sound:
  "e \<in> set (rep_ends P lo hi (seen, rest)) \<Longrightarrow>
   \<exists>w. list_all P w \<and> lo \<le> length w \<and> (case hi of None \<Rightarrow> True | Some h \<Rightarrow> length w \<le> h) \<and>
       rest = w @ snd e \<and> fst e = rev w @ seen"
proof (induction rest arbitrary: lo hi seen)
  case Nil
  then show ?case by (auto split: if_splits option.splits)
next
  case (Cons c rest)
  from Cons.prems consider
    (take) "P c" "hi \<noteq> Some 0"
      "e \<in> set (rep_ends P (lo - 1) (map_option (\<lambda>h. h - 1) hi) (c # seen, rest))"
    | (stop) "lo = 0" "e = (seen, c # rest)"
    by (auto split: if_splits)
  then show ?case
  proof cases
    case take
    from Cons.IH[OF take(3)] obtain w where w: "list_all P w" "lo - 1 \<le> length w"
      "case map_option (\<lambda>h. h - 1) hi of None \<Rightarrow> True | Some h \<Rightarrow> length w \<le> h"
      "rest = w @ snd e" "fst e = rev w @ c # seen"
      by blast
    have "list_all P (c # w)" using take(1) w(1) by simp
    moreover have "lo \<le> length (c # w)" using w(2) by simp
    moreover have "case hi of None \<Rightarrow> True | Some h \<Rightarrow> length (c # w) \<le> h"
      using w(3) take(2) by (cases hi) auto
    moreover have "c # rest = (c # w) @ snd e" using w(4) by simp
    moreover have "fst e = rev (c # w) @ seen" using w(5) by simp
    ultimately show ?thesis by blast
  next
    case stop
    then show ?thesis by (auto split: option.splits)
  qed
qed

lemma ends_sound:
  "e \<in> set (ends r (seen, rest)) \<Longrightarrow>
   \<exists>w. w \<in> lang r \<and> rest = w @ snd e \<and> fst e = rev w @ seen"
proof (induction r arbitrary: seen rest e)
  case (Cls P)
  then show ?case by (auto split: list.splits if_splits)
next
  case (Seq r1 r2)
  from Seq.prems obtain mid where mid: "mid \<in> set (ends r1 (seen, rest))" "e \<in> set (ends r2 mid)"
    by auto
  obtain seen1 rest1 where m: "mid = (seen1, rest1)" by (cases mid)
  from Seq.IH(1)[OF mid(1)] obtain w1 where w1: "w1 \<in> lang r1" "rest = w1 @ rest1"
    "seen1 = rev w1 @ seen" by (auto simp: m)
  from Seq.IH(2)[OF mid(2)[unfolded m]] obtain w2 where w2: "w2 \<in> lang r2" "rest1 = w2 @ snd e"
    "fst e = rev w2 @ seen1" by auto
  have "w1 @ w2 \<in> lang (Seq r1 r2)" using w1(1) w2(1) by auto
  moreover have "rest = (w1 @ w2) @ snd e" using w1(2) w2(2) by simp
  moreover have "fst e = rev (w1 @ w2) @ seen" using w1(3) w2(3) by simp
  ultimately show ?case by blast
next
  case (Alt r1 r2)
  from Alt.prems consider "e \<in> set (ends r1 (seen, rest))" | "e \<in> set (ends r2 (seen, rest))"
    by auto
  then show ?case
  proof cases
    case 1
    from Alt.IH(1)[OF 1] show ?thesis by auto
  next
    case 2
    from Alt.IH(2)[OF 2] show ?thesis by auto
  qed
next
  case (Opt r)
  from Opt.prems consider "e \<in> set (ends r (seen, rest))" | "e = (seen, rest)"
    by auto
  then show ?case
  proof cases
    case 1
    from Opt.IH[OF 1] show ?thesis by auto
  next
    case 2
    then show ?thesis by simp
  qed
next
  case (Rep P lo hi)
  then show ?case using rep_ends_sound[of e P lo hi seen rest] by auto
next
  case WordBoundary
  then show ?case by (auto split: if_splits)
next
  case LineStart
  then show ?case by (auto split: if_splits)
next
  case Eps
  then show ?case by auto
qed

lemma find_from_sound:
  "find_from r pos = Some (s, e) \<Longrightarrow> e \<in> set (ends r s)"
proof (induction r pos rule: find_from.induct)
  case (1 r seen)
  then show ?case by (auto split: list.splits)
next
  case (2 r seen c rest)
  then show ?case by (cases "ends r (seen, c # rest)") auto
qed

lemma first_match_lang:
  assumes "first_match r text = Some m"
  shows "m \<in> lang r"
proof -
  from assms obtain s e where f: "find_from r ([], text) = Some (s, e)" and m: "m = matched s e"
    by (auto simp: first_match_def split: option.splits)
  obtain seen rest where s: "s = (seen, rest)" by (cases s)
  from ends_sound[OF find_from_sound[OF f, unfolded s]]
  obtain w where w: "w \<in> lang r" "rest = w @ snd e" by blast
  have "matched s e = w" by (simp add: matched_def s w(2))
  then show ?thesis using w(1) m by simp
qed

subsection \<open>The shape of a phone match\<close>

lemma lang_SeqE:
  assumes "w \<in> lang (Seq r1 r2)"
  obtains u v where "w = u @ v" "u \<in> lang r1" "v \<in> lang r2"
  using assms by auto

lemma lang_Opt_Cls: "w \<in> lang (Opt (Cls P)) \<Longrightarrow> w = [] \<or> (\<exists>c. w = [c] \<and> P c)"
  by auto

lemma lang_Rep_exact: "w \<in> lang (Rep P n (Some n)) \<Longrightarrow> list_all P w \<and> length w = n"
  by auto

lemma phone_sep_dropped: "phone_sep c \<Longrightarrow> \<not> is_digit c \<and> c \<noteq> 43"
  by (auto simp: phone_sep_def is_space_def is_digit_def)

lemma filter_digits_id: "list_all is_digit ds \<Longrightarrow> filter is_digit ds = ds"
  by (induction ds) auto

lemma filter_kept_digits: "list_all is_digit ds \<Longrightarrow> filter (\<lambda>c. is_digit c \<or> c = 43) ds = ds"
  by (induction ds) auto

lemma digits_no_plus: "list_all is_digit ds \<Longrightarrow> 43 \<notin> set ds"
  by (induction ds) (auto simp: is_digit_def)

text \<open>
  A match of the phone pattern is an optional plus sign, an optional 1 and ten digits,
  with separators and parentheses in between: stripping leaves the plus sign only at the
  front, and 10 or 11 digits.
\<close>

lemma phone_match_shape:
  assumes "m \<in> lang phone_pattern"
  shows "\<exists>p one ds. (p = [] \<or> p = [43]) \<and> (one = [] \<or> one = [49]) \<and>
     list_all is_digit ds \<and> length ds = 10 \<and>
     filter (\<lambda>c. is_digit c \<or> c = 43) m = p @ one @ ds \<and>
     filter is_digit m = one @ ds \<and>
     (take 1 m = [43]) = (p = [43])"
proof -
  let ?keep = "\<lambda>c. is_digit c \<or> c = 43"
  from assms have "m \<in> lang (Seq (Opt (Cls (exactly 43))) (Seq (Opt (Cls (exactly 49)))
      (Seq (Opt (Cls phone_sep)) (Seq (Opt (Cls (exactly 40))) (Seq (Rep is_digit 3 (Some 3))
      (Seq (Opt (Cls (exactly 41))) (Seq (Opt (Cls phone_sep)) (Seq (Rep is_digit 3 (Some 3))
      (Seq (Opt (Cls phone_sep)) (Rep is_digit 4 (Some 4)))))))))))"
    by (simp add: phone_pattern_def)
  then obtain p t1 where 1: "m = p @ t1" "p \<in> lang (Opt (Cls (exactly 43)))"
    and r1: "t1 \<in> lang (Seq (Opt (Cls (exactly 49)))
      (Seq (Opt (Cls phone_sep)) (Seq (Opt (Cls (exactly 40))) (Seq (Rep is_digit 3 (Some 3))
      (Seq (Opt (Cls (exactly 41))) (Seq (Opt (Cls phone_sep)) (Seq (Rep is_digit 3 (Some 3))
      (Seq (Opt (Cls phone_sep)) (Rep is_digit 4 (Some 4))))))))))"
    by (rule lang_SeqE)
  from r1 obtain one t2 where 2: "t1 = one @ t2" "one \<in> lang (Opt (Cls (exactly 49)))"
    and r2: "t2 \<in> lang (Seq (Opt (Cls phone_sep)) (Seq (Opt (Cls (exactly 40)))
      (Seq (Rep is_digit 3 (Some 3))
      (Seq (Opt (Cls (exactly 41))) (Seq (Opt (Cls phone_sep)) (Seq (Rep is_digit 3 (Some 3))
      (Seq (Opt (Cls phone_sep)) (Rep is_digit 4 (Some 4)))))))))"
    by (rule lang_SeqE)
  from r2 obtain s1 t3 where 3: "t2 = s1 @ t3" "s1 \<in> lang (Opt (Cls phone_sep))"
    and r3: "t3 \<in> lang (Seq (Opt (Cls (exactly 40))) (Seq (Rep is_digit 3 (Some 3))
      (Seq (Opt (Cls (exactly 41))) (Seq (Opt (Cls phone_sep)) (Seq (Rep is_digit 3 (Some 3))
      (Seq (Opt (Cls phone_sep)) (Rep is_digit 4 (Some 4))))))))"
    by (rule lang_SeqE)
  from r3 obtain lp t4 where 4: "t3 = lp @ t4" "lp \<in> lang (Opt (Cls (exactly 40)))"
    and r4: "t4 \<in> lang (Seq (Rep is_digit 3 (Some 3))
      (Seq (Opt (Cls (exactly 41))) (Seq (Opt (Cls phone_sep)) (Seq (Rep is_digit 3 (Some 3))
      (Seq (Opt (Cls phone_sep)) (Rep is_digit 4 (Some 4)))))))"
    by (rule lang_SeqE)
  from r4 obtain d1 t5 where 5: "t4 = d1 @ t5" "d1 \<in> lang (Rep is_digit 3 (Some 3))"
    and r5: "t5 \<in> lang (Seq (Opt (Cls (exactly 41))) (Seq (Opt (Cls phone_sep))
      (Seq (Rep is_digit 3 (Some 3)) (Seq (Opt (Cls phone_sep)) (Rep is_digit 4 (Some 4))))))"
    by (rule lang_SeqE)
  from r5 obtain rp t6 where 6: "t5 = rp @ t6" "rp \<in> lang (Opt (Cls (exactly 41)))"
    and r6: "t6 \<in> lang (Seq (Opt (Cls phone_sep))
      (Seq (Rep is_digit 3 (Some 3)) (Seq (Opt (Cls phone_sep)) (Rep is_digit 4 (Some 4)))))"
    by (rule lang_SeqE)
  from r6 obtain s2 t7 where 7: "t6 = s2 @ t7" "s2 \<in> lang (Opt (Cls phone_sep))"
    and r7: "t7 \<in> lang (Seq (Rep is_digit 3 (Some 3)) (Seq (Opt (Cls phone_sep)) (Rep is_digit 4 (Some 4))))"
    by (rule lang_SeqE)
  from r7 obtain d2 t8 where 8: "t7 = d2 @ t8" "d2 \<in> lang (Rep is_digit 3 (Some 3))"
    and r8: "t8 \<in> lang (Seq (Opt (Cls phone_sep)) (Rep is_digit 4 (Some 4)))"
    by (rule lang_SeqE)
  from r8 obtain s3 d3 where 9: "t8 = s3 @ d3" "s3 \<in> lang (Opt (Cls phone_sep))"
    and 10: "d3 \<in> lang (Rep is_digit 4 (Some 4))"
    by (rule lang_SeqE)
  have m: "m = p @ one @ s1 @ lp @ d1 @ rp @ s2 @ d2 @ s3 @ d3"
    by (simp add: 1 2 3 4 5 6 7 8 9)
  have p: "p = [] \<or> p = [43]" using lang_Opt_Cls[OF 1(2)] by (auto simp: exactly_def)
  have one: "one = [] \<or> one = [49]" using lang_Opt_Cls[OF 2(2)] by (auto simp: exactly_def)
  have lp: "lp = [] \<or> lp = [40]" using lang_Opt_Cls[OF 4(2)] by (auto simp: exactly_def)
  have rp: "rp = [] \<or> rp = [41]" using lang_Opt_Cls[OF 6(2)] by (auto simp: exactly_def)
  have d1: "list_all is_digit d1" "length d1 = 3" using lang_Rep_exact[OF 5(2)] by simp_all
  have d2: "list_all is_digit d2" "length d2 = 3" using lang_Rep_exact[OF 8(2)] by simp_all
  have d3: "list_all is_digit d3" "length d3 = 4" using lang_Rep_exact[OF 10] by simp_all
  have sep: "filter ?keep s = [] \<and> filter is_digit s = [] \<and> 43 \<notin> set s"
    if "s \<in> lang (Opt (Cls phone_sep))" for s
    using lang_Opt_Cls[OF that] phone_sep_dropped by auto
  have kp: "filter ?keep p = p \<and> filter is_digit p = []"
    using p by (auto simp: is_digit_def)
  have kone: "filter ?keep one = one \<and> filter is_digit one = one \<and> 43 \<notin> set one"
    using one by (auto simp: is_digit_def)
  have klp: "filter ?keep lp = [] \<and> filter is_digit lp = [] \<and> 43 \<notin> set lp"
    using lp by (auto simp: is_digit_def)
  have krp: "filter ?keep rp = [] \<and> filter is_digit rp = []"
    using rp by (auto simp: is_digit_def)
  define ds where "ds = d1 @ d2 @ d3"
  have ds: "list_all is_digit ds" "length ds = 10" using d1 d2 d3 by (simp_all add: ds_def)
  have keep: "filter ?keep m = p @ one @ ds"
    unfolding m ds_def filter_append
    by (simp only: kp kone klp krp sep[OF 3(2)] sep[OF 7(2)] sep[OF 9(2)]
        filter_kept_digits[OF d1(1)] filter_kept_digits[OF d2(1)] filter_kept_digits[OF d3(1)]
        append_Nil append_Nil2)
  have dig: "filter is_digit m = one @ ds"
    unfolding m ds_def filter_append
    by (simp only: kp kone klp krp sep[OF 3(2)] sep[OF 7(2)] sep[OF 9(2)]
        filter_digits_id[OF d1(1)] filter_digits_id[OF d2(1)] filter_digits_id[OF d3(1)]
        append_Nil append_Nil2)
  have front: "(take 1 m = [43]) = (p = [43])"
  proof (cases "p = []")
    case True
    define front where "front = one @ s1 @ lp @ d1"
    have ne: "front \<noteq> []" using d1(2) by (auto simp: front_def)
    have no: "43 \<notin> set front"
      using kone sep[OF 3(2)] klp digits_no_plus[OF d1(1)] by (simp add: front_def)
    have "m = front @ rp @ s2 @ d2 @ s3 @ d3" by (simp add: m True front_def)
    then have "take 1 m = [hd front]" using ne by (cases front) simp_all
    moreover have "hd front \<noteq> 43" using ne no by (metis hd_in_set)
    ultimately show ?thesis using True by simp
  next
    case False
    then have "p = [43]" using p by simp
    then show ?thesis by (simp add: m)
  qed
  show ?thesis using p one ds keep dig front by blast
qed

text \<open>What \<open>normalizePhone\<close> makes of such a match.\<close>

lemma normalizePhone_of_match:
  assumes "m \<in> lang phone_pattern"
  shows "filter (\<lambda>c. is_digit c \<or> c = 43) m =
           (if take 1 m = [43] then [43] else []) @ filter is_digit m"
    and "normalizePhone m =
           (if take 1 m = [43] then 43 # filter is_digit m
            else if length (filter is_digit m) = 10 then [43, 49] @ filter is_digit m
            else 43 # filter is_digit m)"
    and "length (filter is_digit m) = 10 \<or>
         (length (filter is_digit m) = 11 \<and> take 1 (filter is_digit m) = [49])"
    and "length (filter is_digit (normalizePhone m)) = 10 \<or>
         length (filter is_digit (normalizePhone m)) = 11"
proof -
  from phone_match_shape[OF assms] obtain p one ds where
    p: "p = [] \<or> p = [43]" and one: "one = [] \<or> one = [49]"
    and ds: "list_all is_digit ds" "length ds = 10"
    and keep: "filter (\<lambda>c. is_digit c \<or> c = 43) m = p @ one @ ds"
    and dig: "filter is_digit m = one @ ds"
    and front1: "(take 1 m = [43]) = (p = [43])"
    by blast
  have front: "(take (Suc 0) m = [43]) = (p = [43])" using front1 by simp
  have d49: "is_digit 49" "\<not> is_digit 43" by (simp_all add: is_digit_def)
  have fd: "filter is_digit ds = ds" by (rule filter_digits_id[OF ds(1)])
  show "filter (\<lambda>c. is_digit c \<or> c = 43) m =
           (if take 1 m = [43] then [43] else []) @ filter is_digit m"
    using p by (auto simp: keep dig front)
  show n: "normalizePhone m =
           (if take 1 m = [43] then 43 # filter is_digit m
            else if length (filter is_digit m) = 10 then [43, 49] @ filter is_digit m
            else 43 # filter is_digit m)"
    using p one ds(2) by (auto simp: normalizePhone_def keep dig front Let_def)
  show "length (filter is_digit m) = 10 \<or>
         (length (filter is_digit m) = 11 \<and> take 1 (filter is_digit m) = [49])"
    using one ds(2) by (auto simp: dig)
  show "length (filter is_digit (normalizePhone m)) = 10 \<or>
         length (filter is_digit (normalizePhone m)) = 11"
    unfolding n using p one ds(2) by (auto simp: dig front fd d49)
qed

subsection \<open>What the snapshot depends on\<close>

lemma buildLeadInfo_unfold:
  "buildLeadInfo ex =
     (\<lparr>name = property (currentLead ex) KName,
       email = property (currentLead ex) KEmail,
       phone = property (currentLead ex) KPhone,
       company = property (currentLead ex) KCompany,
       lead_notes = property (currentLead ex) KNotes,
       conf_name = (if truthy (property (currentLead ex) KName) then Some (85 / 100) else None),
       conf_email = map_option (\<lambda>r. if fst r then 1 else 1 / 2) (email_check ex),
       conf_phone =
         (case property (currentLead ex) KPhone of
            None \<Rightarrow> None
          | Some p \<Rightarrow> if p = [] then None else Some (if validatePhone p then 1 else 1 / 2))\<rparr>,
      ex\<lparr>emailLastIndex :=
           (case email_check ex of None \<Rightarrow> emailLastIndex ex | Some r \<Rightarrow> snd r)\<rparr>)"
proof (cases "property (currentLead ex) KEmail")
  case None
  then show ?thesis by (simp add: buildLeadInfo_def email_check_def Let_def)
next
  case (Some e)
  show ?thesis
  proof (cases "e = []")
    case True
    then show ?thesis using Some by (simp add: buildLeadInfo_def email_check_def Let_def)
  next
    case False
    obtain ok li where t: "test_global email_pattern (emailLastIndex ex) e = (ok, li)"
      by (cases "test_global email_pattern (emailLastIndex ex) e")
    show ?thesis
      using Some False t
      by (simp add: buildLeadInfo_def validateEmail_def email_check_def Let_def)
  qed
qed

lemma buildLeadInfo_keeps:
  "currentLead (snd (buildLeadInfo ex)) = currentLead ex"
  "x_emitted (snd (buildLeadInfo ex)) = x_emitted ex"
  "x_logged (snd (buildLeadInfo ex)) = x_logged ex"
  by (simp_all add: buildLeadInfo_unfold)

lemma buildLeadInfo_fields:
  "name (fst (buildLeadInfo ex)) = property (currentLead ex) KName"
  "email (fst (buildLeadInfo ex)) = property (currentLead ex) KEmail"
  "phone (fst (buildLeadInfo ex)) = property (currentLead ex) KPhone"
  "company (fst (buildLeadInfo ex)) = property (currentLead ex) KCompany"
  "lead_notes (fst (buildLeadInfo ex)) = property (currentLead ex) KNotes"
  by (simp_all add: buildLeadInfo_unfold)

text \<open>
  The name and phone scores are functions of the current fields; the email score is the
  answer of \<open>test\<close> from the current \<open>lastIndex\<close>.
\<close>

lemma buildLeadInfo_confidence:
  "conf_name (fst (buildLeadInfo ex)) =
     (if truthy (property (currentLead ex) KName) then Some (85 / 100) else None)"
  "conf_phone (fst (buildLeadInfo ex)) =
     (case property (currentLead ex) KPhone of
        None \<Rightarrow> None
      | Some p \<Rightarrow> if p = [] then None
                  else Some (if 10 \<le> length (filter is_digit p) \<and> length (filter is_digit p) \<le> 15
                             then 1 else 1 / 2))"
  "conf_email (fst (buildLeadInfo ex)) =
     (case property (currentLead ex) KEmail of
        None \<Rightarrow> None
      | Some e \<Rightarrow> if e = [] then None
                  else Some (if fst (test_global email_pattern (emailLastIndex ex) e) then 1 else 1 / 2))"
  by (simp_all add: buildLeadInfo_unfold email_check_def validatePhone_def Let_def
      split: option.splits)

lemma buildLeadInfo_same:
  assumes "currentLead e1 = currentLead e2" "emailLastIndex e1 = emailLastIndex e2"
  shows "fst (buildLeadInfo e1) = fst (buildLeadInfo e2)"
    and "emailLastIndex (snd (buildLeadInfo e1)) = emailLastIndex (snd (buildLeadInfo e2))"
proof -
  have ec: "email_check e1 = email_check e2"
    unfolding email_check_def assms ..
  show "fst (buildLeadInfo e1) = fst (buildLeadInfo e2)"
    by (simp add: buildLeadInfo_unfold ec assms)
  show "emailLastIndex (snd (buildLeadInfo e1)) = emailLastIndex (snd (buildLeadInfo e2))"
    by (simp add: buildLeadInfo_unfold ec assms cong: option.case_cong)
qed

lemma buildLeadInfo_empty:
  assumes "currentLead ex = Map.empty"
  shows "buildLeadInfo ex =
     (\<lparr>name = None, email = None, phone = None, company = None, lead_notes = None,
       conf_name = None, conf_email = None, conf_phone = None\<rparr>, ex)"
  using assms by (simp add: buildLeadInfo_unfold email_check_def property_def truthy_def)

lemma buildLeadInfo_agree:
  assumes "agree e1 e2"
  shows "fst (buildLeadInfo e1) = fst (buildLeadInfo e2)"
    and "agree (snd (buildLeadInfo e1)) (snd (buildLeadInfo e2))"
proof -
  have cl: "currentLead e1 = currentLead e2" using assms by (simp add: agree_def)
  show "fst (buildLeadInfo e1) = fst (buildLeadInfo e2)"
  proof (cases "currentLead e1 = Map.empty")
    case True
    then show ?thesis using cl by (simp add: buildLeadInfo_empty)
  next
    case False
    then show ?thesis using assms buildLeadInfo_same(1)[of e1 e2] by (simp add: agree_def)
  qed
  show "agree (snd (buildLeadInfo e1)) (snd (buildLeadInfo e2))"
  proof (cases "currentLead e1 = Map.empty")
    case True
    then show ?thesis using cl by (simp add: agree_def buildLeadInfo_keeps)
  next
    case False
    then show ?thesis
      using assms buildLeadInfo_same(2)[of e1 e2] by (simp add: agree_def buildLeadInfo_keeps)
  qed
qed

lemma processMessage_snd:
  "snd (processMessage cfg msg ex) =
     (if role msg \<noteq> RoleUser then ex
      else
        let updates = foldl (\<lambda>u extractor. u ++ extractor (content msg))
                        (fst (extract_updates (content msg))) (customExtractors cfg);
            ex1 = ex\<lparr>currentLead := currentLead ex ++ updates, emailLastIndex := 0,
                     x_logged := x_logged ex @ snd (extract_updates (content msg))\<rparr>;
            lead = fst (buildLeadInfo ex1);
            ex2 = snd (buildLeadInfo ex1)
        in if hasMinimumInfo lead \<and> extractOnEveryMessage cfg
           then ex2\<lparr>x_emitted := x_emitted ex2 @ [lead]\<rparr> else ex2)"
  by (simp add: processMessage_def Let_def case_prod_beta)

lemma processMessage_fst:
  "fst (processMessage cfg msg ex) =
     (if role msg \<noteq> RoleUser then None
      else
        let updates = foldl (\<lambda>u extractor. u ++ extractor (content msg))
                        (fst (extract_updates (content msg))) (customExtractors cfg);
            ex1 = ex\<lparr>currentLead := currentLead ex ++ updates, emailLastIndex := 0,
                     x_logged := x_logged ex @ snd (extract_updates (content msg))\<rparr>;
            lead = fst (buildLeadInfo ex1)
        in if hasMinimumInfo lead \<and> extractOnEveryMessage cfg then Some lead else None)"
  by (simp add: processMessage_def Let_def case_prod_beta)

lemma processMessage_agree:
  assumes "agree e1 e2"
  shows "fst (processMessage cfg msg e1) = fst (processMessage cfg msg e2)"
    and "agree (snd (processMessage cfg msg e1)) (snd (processMessage cfg msg e2))"
proof -
  define updates where "updates = foldl (\<lambda>u extractor. u ++ extractor (content msg))
                        (fst (extract_updates (content msg))) (customExtractors cfg)"
  define a1 where "a1 = e1\<lparr>currentLead := currentLead e1 ++ updates, emailLastIndex := 0,
                     x_logged := x_logged e1 @ snd (extract_updates (content msg))\<rparr>"
  define a2 where "a2 = e2\<lparr>currentLead := currentLead e2 ++ updates, emailLastIndex := 0,
                     x_logged := x_logged e2 @ snd (extract_updates (content msg))\<rparr>"
  have cl: "currentLead e1 = currentLead e2" using assms by (simp add: agree_def)
  have a: "currentLead a1 = currentLead a2" "emailLastIndex a1 = emailLastIndex a2"
    by (simp_all add: a1_def a2_def cl)
  have same: "fst (buildLeadInfo a1) = fst (buildLeadInfo a2)"
    and li: "emailLastIndex (snd (buildLeadInfo a1)) = emailLastIndex (snd (buildLeadInfo a2))"
    using buildLeadInfo_same[OF a] by simp_all
  have cls: "currentLead (snd (buildLeadInfo a1)) = currentLead (snd (buildLeadInfo a2))"
    by (simp add: buildLeadInfo_keeps a)
  show "fst (processMessage cfg msg e1) = fst (processMessage cfg msg e2)"
    by (simp add: processMessage_fst Let_def same
        updates_def[symmetric] a1_def[symmetric] a2_def[symmetric])
  show "agree (snd (processMessage cfg msg e1)) (snd (processMessage cfg msg e2))"
    using assms
    by (simp add: processMessage_snd Let_def same updates_def[symmetric]
        a1_def[symmetric] a2_def[symmetric]) (simp add: agree_def li cls)
qed

lemma replay_agree:
  "agree e1 e2 \<Longrightarrow> agree (replay cfg msgs e1) (replay cfg msgs e2)"
  by (induction msgs arbitrary: e1 e2) (simp_all add: processMessage_agree)

lemma reset_agree: "agree (reset e1) (reset e2)"
  by (simp add: agree_def reset_def)

lemma processConversation_fst:
  "fst (processConversation cfg st ex) =
     (let lead = fst (buildLeadInfo (replay cfg (messages st) (reset ex)))
      in if hasMinimumInfo lead then Some lead else None)"
  by (simp add: processConversation_def Let_def case_prod_beta)

lemma processConversation_currentLead:
  "currentLead (snd (processConversation cfg st ex)) =
     currentLead (replay cfg (messages st) (reset ex))"
  by (simp add: processConversation_def Let_def case_prod_beta buildLeadInfo_keeps)

lemma hasMinimumInfo_iff:
  "hasMinimumInfo lead = (truthy (name lead) \<or> truthy (email lead) \<or> truthy (phone lead))"
  by (simp add: hasMinimumInfo_def)

subsection \<open>The examples, evaluated\<close>

lemmas class_defs = is_digit_def is_upper_def is_lower_def is_letter_def is_word_def is_space_def
  exactly_def ci_def phone_sep_def email_local_def email_domain_def email_tld_def not_comma_dot_def

lemmas pattern_defs = email_pattern_def phone_pattern_def nameIndicators_def greeting_prefix_def
  companyIndicators_def company_group_def company_suffix_group_def name_group_def word_i_def
  spaces_def apostrophe_def

lemmas extract_defs = extract_updates_def first_match_def first_group_def matched_def
  extractName_def extractCompany_def normalizePhone_def trim_def str_def

lemma number_phone_match:
  "first_match phone_pattern (str ''My number is 4155551234'') = Some (str '' 4155551234'')"
  by (simp add: extract_defs pattern_defs class_defs)

lemma number_updates:
  "extract_updates (str ''My number is 4155551234'') =
     ([KPhone \<mapsto> Some (str ''+14155551234'')], [DebugPhone (str ''+14155551234'')])"
  by (simp add: extract_defs pattern_defs class_defs)

lemma zip_updates:
  "extract_updates (str ''I live in zip code 94043'') = (Map.empty, [])"
  by (simp add: extract_defs pattern_defs class_defs)

lemma email_updates:
  "extract_updates (str ''Email me at valid@email.com'') =
     ([KEmail \<mapsto> Some (str ''valid@email.com'')], [DebugEmail (str ''valid@email.com'')])"
  by (simp add: extract_defs pattern_defs class_defs)

lemma old_name_updates:
  "extract_updates (str ''My name is OldName'') =
     ([KName \<mapsto> Some (str ''OldName'')], [DebugName (str ''OldName'')])"
  by (simp add: extract_defs pattern_defs class_defs)

lemma new_name_updates:
  "extract_updates (str ''My name is NewName'') =
     ([KName \<mapsto> Some (str ''NewName'')], [DebugName (str ''NewName'')])"
  by (simp add: extract_defs pattern_defs class_defs)

text \<open>
  The message of the repository's own test: under the \<open>i\<close> flag the optional second
  word of the name group takes \<open>from\<close> as well.
\<close>

lemma fresh_conv_updates:
  "extract_updates (str ''I am NewName from a fresh conv'') =
     ([KName \<mapsto> Some (str ''NewName from'')], [DebugName (str ''NewName from'')])"
  by (simp add: extract_defs pattern_defs class_defs)

lemma valid_email_test_at_0:
  "test_global email_pattern 0 (str ''valid@email.com'') = (True, 15)"
  by (simp add: test_global_def extract_defs pattern_defs class_defs)

lemma valid_email_test_at_15:
  "test_global email_pattern 15 (str ''valid@email.com'') = (False, 0)"
  by (simp add: test_global_def extract_defs pattern_defs class_defs)

lemma valid_email_length: "str ''valid@email.com'' \<noteq> []"
  by (simp add: str_def)

subsection \<open>The claims\<close>

lemma extract_updates_phone:
  assumes "first_match phone_pattern text = Some m"
  shows "fst (extract_updates text) KPhone = Some (Some (normalizePhone m))"
  using assms
  by (simp add: extract_updates_def Let_def case_prod_beta split: option.splits)

lemma processMessage_builtin_fields:
  assumes "role msg = RoleUser" "customExtractors cfg = []"
  shows "currentLead (snd (processMessage cfg msg ex)) =
         currentLead ex ++ fst (extract_updates (content msg))"
  using assms by (simp add: processMessage_snd Let_def buildLeadInfo_keeps)

text \<open>The loop is a left fold of \<open>processMessage\<close> over the messages, first to last.\<close>

lemma replay_foldl:
  "replay cfg msgs ex = foldl (\<lambda>e m. snd (processMessage cfg m e)) ex msgs"
  by (induction msgs arbitrary: ex) simp_all

text \<open>
  What one \<open>processMessage\<close> does to the accumulated fields: a user message spreads its
  updates over them, any other message leaves them.
\<close>

lemma processMessage_currentLead:
  "currentLead (snd (processMessage cfg msg ex)) =
     (if role msg = RoleUser then currentLead ex ++ message_updates cfg (content msg)
      else currentLead ex)"
  by (simp add: processMessage_snd Let_def buildLeadInfo_keeps message_updates_def)

lemma replay_currentLead:
  "currentLead (replay cfg msgs ex) =
     foldl (\<lambda>fields msg. if role msg = RoleUser
                          then fields ++ message_updates cfg (content msg) else fields)
       (currentLead ex) msgs"
proof (induction msgs arbitrary: ex)
  case Nil
  show ?case by simp
next
  case (Cons msg msgs)
  show ?case
    by (simp only: replay.simps foldl_Cons Cons.IH processMessage_currentLead)
qed

lemma default_message_updates:
  "message_updates default_extractor_config text = fst (extract_updates text)"
  by (simp add: message_updates_def default_extractor_config_def)

lemma plus_number_valid: "validatePhone (str ''+14155551234'')"
  by (simp add: validatePhone_def str_def is_digit_def)

text \<open>
  C3. \<open>processConversation\<close> resets the accumulated fields and replays the messages of
  the given state in order, so what it returns, and the fields it leaves, are those a
  fresh extractor gives on the same state; it returns null exactly when the final
  snapshot has none of name, email and phone. After \<open>My name is OldName\<close> has been
  accumulated, \<open>processConversation\<close> on a history with the one message
  \<open>My name is NewName\<close> returns the lead whose name is \<open>NewName\<close> and whose other fields
  are empty.

  The replay is the left fold of \<open>processMessage\<close> over all the messages, first to last:
  the fields that \<open>processConversation\<close> leaves are the updates of every user message of
  the state, spread in order over the empty object, and the lead it returns has these
  fields, the name score 0.85 when the name is set and the phone score of the phone. On
  the two histories \<open>OldName\<close>, \<open>NewName\<close> and \<open>NewName\<close>, \<open>OldName\<close> the later name wins; on a
  history of a user's name, an assistant's message and the user's number, the lead has
  the name of the first message and the phone of the third, and nothing of the
  assistant's.
\<close>

theorem C3_processConversation:
  "fst (processConversation cfg st ex) = fst (processConversation cfg st new_extractor) \<and>
   currentLead (snd (processConversation cfg st ex)) =
     currentLead (snd (processConversation cfg st new_extractor)) \<and>
   currentLead (reset ex) = Map.empty \<and>
   fst (processConversation cfg st ex) =
     (let lead = fst (buildLeadInfo (replay cfg (messages st) (reset ex)))
      in if truthy (name lead) \<or> truthy (email lead) \<or> truthy (phone lead)
         then Some lead else None) \<and>
   (let old = snd (processMessage default_extractor_config
                     (user_message (str ''My name is OldName'')) new_extractor)
    in property (currentLead old) KName = Some (str ''OldName'') \<and>
       fst (processConversation default_extractor_config
              (history [user_message (str ''My name is NewName'')]) old) =
         Some \<lparr>name = Some (str ''NewName''), email = None, phone = None, company = None,
               lead_notes = None, conf_name = Some (85 / 100), conf_email = None,
               conf_phone = None\<rparr>) \<and>
   replay cfg msgs e = foldl (\<lambda>e m. snd (processMessage cfg m e)) e msgs \<and>
   fst (processConversation cfg st ex) =
     (let lead = fst (buildLeadInfo
                   (foldl (\<lambda>e m. snd (processMessage cfg m e)) (reset ex) (messages st)))
      in if truthy (name lead) \<or> truthy (email lead) \<or> truthy (phone lead)
         then Some lead else None) \<and>
   currentLead (snd (processMessage cfg m e)) =
     (if role m = RoleUser then currentLead e ++ message_updates cfg (content m)
      else currentLead e) \<and>
   currentLead (snd (processConversation cfg st ex)) =
     foldl (\<lambda>fields msg. if role msg = RoleUser
                          then fields ++ message_updates cfg (content msg) else fields)
       Map.empty (messages st) \<and>
   (let fields = foldl (\<lambda>fields msg. if role msg = RoleUser
                          then fields ++ message_updates cfg (content msg) else fields)
                   Map.empty (messages st)
    in map_option (\<lambda>lead. (name lead, email lead, phone lead, company lead, lead_notes lead,
                            conf_name lead, conf_phone lead))
         (fst (processConversation cfg st ex)) =
       (if truthy (property fields KName) \<or> truthy (property fields KEmail) \<or>
           truthy (property fields KPhone)
        then Some (property fields KName, property fields KEmail, property fields KPhone,
                   property fields KCompany, property fields KNotes,
                   (if truthy (property fields KName) then Some (85 / 100) else None),
                   (case property fields KPhone of
                      None \<Rightarrow> None
                    | Some p \<Rightarrow> if p = [] then None
                                else Some (if validatePhone p then 1 else 1 / 2)))
        else None)) \<and>
   (let old = snd (processMessage default_extractor_config
                     (user_message (str ''My name is OldName'')) new_extractor)
    in fst (processConversation default_extractor_config
              (history [user_message (str ''My name is OldName''),
                        user_message (str ''My name is NewName'')]) old) =
         Some \<lparr>name = Some (str ''NewName''), email = None, phone = None, company = None,
               lead_notes = None, conf_name = Some (85 / 100), conf_email = None,
               conf_phone = None\<rparr> \<and>
       fst (processConversation default_extractor_config
              (history [user_message (str ''My name is NewName''),
                        user_message (str ''My name is OldName'')]) old) =
         Some \<lparr>name = Some (str ''OldName''), email = None, phone = None, company = None,
               lead_notes = None, conf_name = Some (85 / 100), conf_email = None,
               conf_phone = None\<rparr> \<and>
       fst (processConversation default_extractor_config
              (history [user_message (str ''My name is NewName''),
                        assistant_message (str ''My name is OldName''),
                        user_message (str ''My number is 4155551234'')]) old) =
         Some \<lparr>name = Some (str ''NewName''), email = None, phone = Some (str ''+14155551234''),
               company = None, lead_notes = None, conf_name = Some (85 / 100),
               conf_email = None, conf_phone = Some 1\<rparr>)"
proof -
  have ag: "agree (replay cfg (messages st) (reset ex))
                  (replay cfg (messages st) (reset new_extractor))"
    by (rule replay_agree[OF reset_agree])
  have same: "fst (buildLeadInfo (replay cfg (messages st) (reset ex))) =
      fst (buildLeadInfo (replay cfg (messages st) (reset new_extractor)))"
    by (rule buildLeadInfo_agree(1)[OF ag])
  have r: "fst (processConversation cfg st ex) = fst (processConversation cfg st new_extractor)"
    by (simp add: processConversation_fst same)
  have f: "currentLead (snd (processConversation cfg st ex)) =
     currentLead (snd (processConversation cfg st new_extractor))"
    using ag by (simp add: processConversation_currentLead agree_def)
  have e: "currentLead (reset ex) = Map.empty" by (simp add: reset_def)
  have n: "fst (processConversation cfg st ex) =
     (let lead = fst (buildLeadInfo (replay cfg (messages st) (reset ex)))
      in if truthy (name lead) \<or> truthy (email lead) \<or> truthy (phone lead)
         then Some lead else None)"
    by (simp add: processConversation_fst hasMinimumInfo_iff)
  define old where "old = snd (processMessage default_extractor_config
                     (user_message (str ''My name is OldName'')) new_extractor)"
  have d: "customExtractors default_extractor_config = []"
    by (simp add: default_extractor_config_def)
  have u: "role (user_message t) = RoleUser" "content (user_message t) = t"
    "role (assistant_message t) = RoleAssistant" for t
    by (simp_all add: user_message_def assistant_message_def)
  have o: "currentLead old = [KName \<mapsto> Some (str ''OldName'')]"
    unfolding old_def
    by (simp add: processMessage_builtin_fields[OF u(1) d] u(2) old_name_updates new_extractor_def)
  have o1: "property (currentLead old) KName = Some (str ''OldName'')"
    by (simp add: o property_def)
  have after: "currentLead (replay default_extractor_config
        [user_message (str ''My name is NewName'')] (reset old)) = [KName \<mapsto> Some (str ''NewName'')]"
    by (simp add: processMessage_builtin_fields[OF u(1) d] u(2) new_name_updates reset_def)
  have nn: "str ''NewName'' \<noteq> []" "str ''OldName'' \<noteq> []" "str ''+14155551234'' \<noteq> []"
    by (simp_all add: str_def)
  have x: "fst (processConversation default_extractor_config
              (history [user_message (str ''My name is NewName'')]) old) =
         Some \<lparr>name = Some (str ''NewName''), email = None, phone = None, company = None,
               lead_notes = None, conf_name = Some (85 / 100), conf_email = None,
               conf_phone = None\<rparr>"
    by (simp add: processConversation_fst history_def hasMinimumInfo_iff buildLeadInfo_unfold
        email_check_def after property_def truthy_def nn Let_def del: replay.simps)
  have fo: "replay cfg msgs e = foldl (\<lambda>e m. snd (processMessage cfg m e)) e msgs"
    by (rule replay_foldl)
  have n': "fst (processConversation cfg st ex) =
     (let lead = fst (buildLeadInfo
                   (foldl (\<lambda>e m. snd (processMessage cfg m e)) (reset ex) (messages st)))
      in if truthy (name lead) \<or> truthy (email lead) \<or> truthy (phone lead)
         then Some lead else None)"
    using n by (simp only: replay_foldl)
  have pm: "currentLead (snd (processMessage cfg m e)) =
     (if role m = RoleUser then currentLead e ++ message_updates cfg (content m)
      else currentLead e)"
    by (rule processMessage_currentLead)
  define fields where "fields =
    foldl (\<lambda>fields msg. if role msg = RoleUser
                          then fields ++ message_updates cfg (content msg) else fields)
      Map.empty (messages st)"
  have rf: "currentLead (replay cfg (messages st) (reset ex)) = fields"
    by (simp only: replay_currentLead e fields_def)
  have cf: "currentLead (snd (processConversation cfg st ex)) = fields"
    by (simp only: processConversation_currentLead rf)
  have snap: "map_option (\<lambda>lead. (name lead, email lead, phone lead, company lead, lead_notes lead,
                            conf_name lead, conf_phone lead))
         (fst (processConversation cfg st ex)) =
       (if truthy (property fields KName) \<or> truthy (property fields KEmail) \<or>
           truthy (property fields KPhone)
        then Some (property fields KName, property fields KEmail, property fields KPhone,
                   property fields KCompany, property fields KNotes,
                   (if truthy (property fields KName) then Some (85 / 100) else None),
                   (case property fields KPhone of
                      None \<Rightarrow> None
                    | Some p \<Rightarrow> if p = [] then None
                                else Some (if validatePhone p then 1 else 1 / 2)))
        else None)"
    by (simp add: processConversation_fst hasMinimumInfo_iff buildLeadInfo_unfold rf Let_def)
  have two: "currentLead (replay default_extractor_config
        [user_message (str ''My name is OldName''), user_message (str ''My name is NewName'')]
        (reset old)) = [KName \<mapsto> Some (str ''NewName'')]"
    by (simp add: replay_currentLead reset_def default_message_updates u old_name_updates
        new_name_updates del: replay.simps)
  have two': "currentLead (replay default_extractor_config
        [user_message (str ''My name is NewName''), user_message (str ''My name is OldName'')]
        (reset old)) = [KName \<mapsto> Some (str ''OldName'')]"
    by (simp add: replay_currentLead reset_def default_message_updates u old_name_updates
        new_name_updates del: replay.simps)
  have three: "currentLead (replay default_extractor_config
        [user_message (str ''My name is NewName''), assistant_message (str ''My name is OldName''),
         user_message (str ''My number is 4155551234'')]
        (reset old)) =
        [KName \<mapsto> Some (str ''NewName''), KPhone \<mapsto> Some (str ''+14155551234'')]"
    by (simp add: replay_currentLead reset_def default_message_updates u new_name_updates
        number_updates del: replay.simps)
  have x2: "fst (processConversation default_extractor_config
              (history [user_message (str ''My name is OldName''),
                        user_message (str ''My name is NewName'')]) old) =
         Some \<lparr>name = Some (str ''NewName''), email = None, phone = None, company = None,
               lead_notes = None, conf_name = Some (85 / 100), conf_email = None,
               conf_phone = None\<rparr>"
    by (simp add: processConversation_fst history_def hasMinimumInfo_iff buildLeadInfo_unfold
        email_check_def two property_def truthy_def nn Let_def del: replay.simps)
  have x3: "fst (processConversation default_extractor_config
              (history [user_message (str ''My name is NewName''),
                        user_message (str ''My name is OldName'')]) old) =
         Some \<lparr>name = Some (str ''OldName''), email = None, phone = None, company = None,
               lead_notes = None, conf_name = Some (85 / 100), conf_email = None,
               conf_phone = None\<rparr>"
    by (simp add: processConversation_fst history_def hasMinimumInfo_iff buildLeadInfo_unfold
        email_check_def two' property_def truthy_def nn Let_def del: replay.simps)
  have x4: "fst (processConversation default_extractor_config
              (history [user_message (str ''My name is NewName''),
                        assistant_message (str ''My name is OldName''),
                        user_message (str ''My number is 4155551234'')]) old) =
         Some \<lparr>name = Some (str ''NewName''), email = None, phone = Some (str ''+14155551234''),
               company = None, lead_notes = None, conf_name = Some (85 / 100),
               conf_email = None, conf_phone = Some 1\<rparr>"
    by (simp add: processConversation_fst history_def hasMinimumInfo_iff buildLeadInfo_unfold
        email_check_def three property_def truthy_def nn plus_number_valid Let_def
        del: replay.simps)
  show ?thesis
    using r f e n o1 x fo n' pm cf snap x2 x3 x4
    unfolding old_def[symmetric] fields_def[symmetric] by (simp only: Let_def)
qed

text \<open>
  C4. For a user message whose text matches the phone pattern (with no custom
  extractor configured), the phone field becomes the normalization of the first match
  \<open>m\<close>. Stripping keeps the digits of \<open>m\<close> and a plus sign only at its front. A stripped
  text of length 11 that starts with 1 gets a plus sign in front, one of length 10 gets
  +1 in front, anything else stays as stripped. The result never has exactly 5 digits.
  \<open>My number is 4155551234\<close> gives the phone +14155551234, and
  \<open>I live in zip code 94043\<close> gives no phone.
\<close>

theorem C4_phone_normalization:
  assumes "role msg = RoleUser"
    and "first_match phone_pattern (content msg) = Some m"
    and "customExtractors cfg = []"
  shows "fst (extract_updates (content msg)) KPhone = Some (Some (normalizePhone m)) \<and>
     phone (fst (getCurrentLead (snd (processMessage cfg msg ex)))) = Some (normalizePhone m) \<and>
     filter (\<lambda>c. is_digit c \<or> c = 43) m =
       (if take 1 m = [43] then [43] else []) @ filter is_digit m \<and>
     normalizePhone m =
       (let digits = filter (\<lambda>c. is_digit c \<or> c = 43) m
        in if length digits = 11 \<and> take 1 digits = [49] then 43 # digits
           else if length digits = 10 then [43, 49] @ digits
           else digits) \<and>
     length (filter is_digit (normalizePhone m)) \<noteq> 5 \<and>
     phone (fst (getCurrentLead (snd (processMessage default_extractor_config
        (user_message (str ''My number is 4155551234'')) new_extractor)))) =
       Some (str ''+14155551234'') \<and>
     phone (fst (getCurrentLead (snd (processMessage default_extractor_config
        (user_message (str ''I live in zip code 94043'')) new_extractor)))) = None"
proof -
  have l: "m \<in> lang phone_pattern" by (rule first_match_lang[OF assms(2)])
  have a: "phone (fst (getCurrentLead (snd (processMessage cfg msg ex)))) = Some (normalizePhone m)"
    by (simp add: getCurrentLead_def buildLeadInfo_fields
        processMessage_builtin_fields[OF assms(1,3)] property_def map_add_def
        extract_updates_phone[OF assms(2)])
  have b: "filter (\<lambda>c. is_digit c \<or> c = 43) m =
       (if take 1 m = [43] then [43] else []) @ filter is_digit m"
    by (rule normalizePhone_of_match(1)[OF l])
  have c: "normalizePhone m =
       (let digits = filter (\<lambda>c. is_digit c \<or> c = 43) m
        in if length digits = 11 \<and> take 1 digits = [49] then 43 # digits
           else if length digits = 10 then [43, 49] @ digits
           else digits)"
    by (simp add: normalizePhone_def)
  have d: "length (filter is_digit (normalizePhone m)) \<noteq> 5"
    using normalizePhone_of_match(4)[OF l] by auto
  have dc: "customExtractors default_extractor_config = []"
    by (simp add: default_extractor_config_def)
  have u: "role (user_message t) = RoleUser" "content (user_message t) = t" for t
    by (simp_all add: user_message_def)
  have e: "phone (fst (getCurrentLead (snd (processMessage default_extractor_config
        (user_message (str ''My number is 4155551234'')) new_extractor)))) =
       Some (str ''+14155551234'')"
    by (simp add: getCurrentLead_def buildLeadInfo_fields processMessage_builtin_fields[OF u(1) dc]
        u(2) number_updates property_def new_extractor_def)
  have f: "phone (fst (getCurrentLead (snd (processMessage default_extractor_config
        (user_message (str ''I live in zip code 94043'')) new_extractor)))) = None"
    by (simp add: getCurrentLead_def buildLeadInfo_fields processMessage_builtin_fields[OF u(1) dc]
        u(2) zip_updates property_def new_extractor_def)
  show ?thesis using extract_updates_phone[OF assms(2)] a b c d e f by blast
qed

theorem C4_phone_normalization_witness:
  "role (user_message (str ''My number is 4155551234'')) = RoleUser \<and>
   first_match phone_pattern (content (user_message (str ''My number is 4155551234''))) =
     Some (str '' 4155551234'') \<and>
   customExtractors default_extractor_config = [] \<and>
   normalizePhone (str '' 4155551234'') = str ''+14155551234'' \<and>
   phone (fst (getCurrentLead (snd (processMessage default_extractor_config
        (user_message (str ''My number is 4155551234'')) new_extractor)))) =
     Some (normalizePhone (str '' 4155551234''))"
proof -
  have r: "role (user_message (str ''My number is 4155551234'')) = RoleUser"
    by (simp add: user_message_def)
  have m: "first_match phone_pattern (content (user_message (str ''My number is 4155551234''))) =
     Some (str '' 4155551234'')"
    by (simp add: user_message_def number_phone_match)
  have c: "customExtractors default_extractor_config = []"
    by (simp add: default_extractor_config_def)
  have n: "normalizePhone (str '' 4155551234'') = str ''+14155551234''"
    by (simp add: normalizePhone_def str_def is_digit_def)
  show ?thesis
    using r m c n C4_phone_normalization[OF r m c, of new_extractor] by simp
qed

text \<open>
  C5. The claim: the email confidence is 1.0 when the email validates against the email
  pattern, and the scores are computed from the current fields alone on every call. The
  code validates with \<open>patterns.email.test(email)\<close> on an expression that has the \<open>g\<close>
  flag, so each answer depends on the \<open>lastIndex\<close> the previous call left. After
  \<open>Email me at valid@email.com\<close>, \<open>processMessage\<close> reports the email with confidence 1,
  the next \<open>getCurrentLead()\<close> reports the same email with confidence 1/2, and the one
  after with 1 again; \<open>processConversation\<close> on that one message reports 1/2. The email
  does match the pattern (\<open>test\<close> from index 0 answers true).
\<close>

theorem C5_email_confidence_alternates:
  "(let (first, ex1) = processMessage default_extractor_config
                         (user_message (str ''Email me at valid@email.com'')) new_extractor;
        (second, ex2) = getCurrentLead ex1;
        (third, ex3) = getCurrentLead ex2
    in map_option email first = Some (Some (str ''valid@email.com'')) \<and>
       map_option conf_email first = Some (Some 1) \<and>
       email second = Some (str ''valid@email.com'') \<and>
       conf_email second = Some (1 / 2) \<and>
       email third = Some (str ''valid@email.com'') \<and>
       conf_email third = Some 1) \<and>
   map_option conf_email
     (fst (processConversation default_extractor_config
             (history [user_message (str ''Email me at valid@email.com'')]) new_extractor)) =
     Some (Some (1 / 2)) \<and>
   fst (test_global email_pattern 0 (str ''valid@email.com''))"
proof -
  define cl :: partial_lead where "cl = [KEmail \<mapsto> Some (str ''valid@email.com'')]"
  have p: "property cl KEmail = Some (str ''valid@email.com'')" "property cl KName = None"
    "property cl KPhone = None" "property cl KCompany = None" "property cl KNotes = None"
    by (simp_all add: cl_def property_def)
  have b0: "buildLeadInfo ex =
      (\<lparr>name = None, email = Some (str ''valid@email.com''), phone = None, company = None,
        lead_notes = None, conf_name = None, conf_email = Some 1, conf_phone = None\<rparr>,
       ex\<lparr>emailLastIndex := 15\<rparr>)"
    if "currentLead ex = cl" "emailLastIndex ex = 0" for ex
    using that
    by (simp add: buildLeadInfo_unfold email_check_def p valid_email_length valid_email_test_at_0
        truthy_def)
  have b15: "buildLeadInfo ex =
      (\<lparr>name = None, email = Some (str ''valid@email.com''), phone = None, company = None,
        lead_notes = None, conf_name = None, conf_email = Some (1 / 2), conf_phone = None\<rparr>,
       ex\<lparr>emailLastIndex := 0\<rparr>)"
    if "currentLead ex = cl" "emailLastIndex ex = 15" for ex
    using that
    by (simp add: buildLeadInfo_unfold email_check_def p valid_email_length valid_email_test_at_15
        truthy_def)
  have hm: "hasMinimumInfo \<lparr>name = None, email = Some (str ''valid@email.com''), phone = None,
        company = None, lead_notes = None, conf_name = None, conf_email = c, conf_phone = None\<rparr>" for c
    by (simp add: hasMinimumInfo_iff truthy_def valid_email_length)
  define start where "start = new_extractor\<lparr>currentLead := cl, emailLastIndex := 0,
      x_logged := [DebugEmail (str ''valid@email.com'')]\<rparr>"
  have pm: "processMessage default_extractor_config
              (user_message (str ''Email me at valid@email.com'')) ex =
      (Some \<lparr>name = None, email = Some (str ''valid@email.com''), phone = None, company = None,
        lead_notes = None, conf_name = None, conf_email = Some 1, conf_phone = None\<rparr>,
       ex\<lparr>currentLead := cl, emailLastIndex := 15,
           x_logged := x_logged ex @ [DebugEmail (str ''valid@email.com'')],
           x_emitted := x_emitted ex @
             [\<lparr>name = None, email = Some (str ''valid@email.com''), phone = None, company = None,
               lead_notes = None, conf_name = None, conf_email = Some 1, conf_phone = None\<rparr>]\<rparr>)"
    if "currentLead ex = Map.empty" for ex
    using that
    by (simp add: processMessage_def user_message_def email_updates default_extractor_config_def
        Let_def b0 hm cl_def)
  have first: "(let (first, ex1) = processMessage default_extractor_config
                         (user_message (str ''Email me at valid@email.com'')) new_extractor;
        (second, ex2) = getCurrentLead ex1;
        (third, ex3) = getCurrentLead ex2
    in map_option email first = Some (Some (str ''valid@email.com'')) \<and>
       map_option conf_email first = Some (Some 1) \<and>
       email second = Some (str ''valid@email.com'') \<and>
       conf_email second = Some (1 / 2) \<and>
       email third = Some (str ''valid@email.com'') \<and>
       conf_email third = Some 1)"
    by (simp add: pm new_extractor_def getCurrentLead_def b15 b0)
  have conv: "map_option conf_email
     (fst (processConversation default_extractor_config
             (history [user_message (str ''Email me at valid@email.com'')]) new_extractor)) =
     Some (Some (1 / 2))"
    by (simp add: processConversation_def history_def reset_def pm new_extractor_def b15 hm Let_def)
  show ?thesis using first conv by (simp add: valid_email_test_at_0)
qed

end
